theory Spec2Isabelle
  imports Complex_Main
begin

section \<open>Vectors and matrices of the host's math library\<close>

text \<open>
  Coordinates are modelled as real numbers: the scripts compute with the host's floating
  point numbers, and every statement below is about the exact arithmetic the code writes
  down, not about rounding.

  A \<open>Vector\<close> has three components. An object's world matrix is a 4x4 matrix whose
  last row is \<open>(0, 0, 0, 1)\<close>; the product \<open>matrix @ Vector\<close> of a 4x4 matrix with a
  3-vector extends the vector by \<open>w = 1\<close>, reads the first three rows only and returns a
  3-vector, so the model keeps those three rows.
\<close>

datatype vec = Vector (vx: real) (vy: real) (vz: real)

type_synonym row = "real \<times> real \<times> real \<times> real"

datatype matrix = Matrix (row0: row) (row1: row) (row2: row)

fun row_dot :: "row \<Rightarrow> vec \<Rightarrow> real" where
  "row_dot (a, b, c, d) v = a * vx v + b * vy v + c * vz v + d"

definition mat_mul_vec :: "matrix \<Rightarrow> vec \<Rightarrow> vec" where
  "mat_mul_vec m v = Vector (row_dot (row0 m) v) (row_dot (row1 m) v) (row_dot (row2 m) v)"

definition vec_add :: "vec \<Rightarrow> vec \<Rightarrow> vec" where
  "vec_add a b = Vector (vx a + vx b) (vy a + vy b) (vz a + vz b)"

definition vec_sub :: "vec \<Rightarrow> vec \<Rightarrow> vec" where
  "vec_sub a b = Vector (vx a - vx b) (vy a - vy b) (vz a - vz b)"

definition vec_neg :: "vec \<Rightarrow> vec" where
  "vec_neg a = Vector (- vx a) (- vy a) (- vz a)"

definition vec_div :: "vec \<Rightarrow> real \<Rightarrow> vec" where
  "vec_div a k = Vector (vx a / k) (vy a / k) (vz a / k)"

fun row_shift :: "real \<Rightarrow> row \<Rightarrow> row" where
  "row_shift t (a, b, c, d) = (a, b, c, d + t)"

text \<open>The world matrix of an object that is moved by \<open>d\<close> without turning or scaling.\<close>

definition translate :: "vec \<Rightarrow> matrix \<Rightarrow> matrix" where
  "translate d m =
     Matrix (row_shift (vx d) (row0 m)) (row_shift (vy d) (row1 m)) (row_shift (vz d) (row2 m))"

section \<open>Errors and the built-in minimum and maximum\<close>

datatype py_error = ValueError | TypeError | ReferenceError

definition ebind :: "py_error + 'a \<Rightarrow> ('a \<Rightarrow> py_error + 'b) \<Rightarrow> py_error + 'b" where
  "ebind r f = (case r of Inl e \<Rightarrow> Inl e | Inr a \<Rightarrow> f a)"

text \<open>
  Python's \<open>min\<close> and \<open>max\<close> over an iterable keep the first item and replace it by a
  later one that is strictly smaller (larger); on an empty iterable they raise
  \<open>ValueError\<close>.
\<close>

fun py_min :: "real list \<Rightarrow> py_error + real" where
  "py_min [] = Inl ValueError"
| "py_min (x # xs) = Inr (foldl (\<lambda>m v. if v < m then v else m) x xs)"

fun py_max :: "real list \<Rightarrow> py_error + real" where
  "py_max [] = Inl ValueError"
| "py_max (x # xs) = Inr (foldl (\<lambda>m v. if v > m then v else m) x xs)"

section \<open>The scene objects of the grid scripts\<close>

text \<open>
  A mesh fragment as the placement routine sees it: the corners of its local bounding
  box, its world matrix and its parent. \<open>bound_box = None\<close> stands for a host object
  whose \<open>bound_box\<close> reads as \<open>None\<close>: the variant in \<open>CE-trees-to-grid.py\<close> guards
  against it (and treats a read that raises in the same way), the one in
  \<open>CE-Tree-Grid.py\<close> does not. \<open>matrix_world\<close> is the world matrix as the host last
  evaluated it; the host does not recompute it while the routine runs. The parent is a
  reference to an Empty, modelled as its index in the collection.
\<close>

record fragment =
  bound_box :: "vec list option"
  matrix_world :: matrix
  parent :: "nat option"

record empty_object =
  empty_name :: string
  location :: vec

subsection \<open>Host operations\<close>

text \<open>
  \<open>bpy.data.objects.new(name, None)\<close>: a new Empty, at the origin. The host appends a
  suffix such as \<open>.001\<close> to a name that is taken; the routine never reads the name, and
  the model keeps the name that was asked for.
\<close>

definition objects_new :: "string \<Rightarrow> empty_object" where
  "objects_new nm = \<lparr>empty_name = nm, location = Vector 0 0 0\<rparr>"

text \<open>
  \<open>obj.parent = empty\<close>: the assignment sets the parent and nothing else, so
  \<open>matrix_world\<close>, the matrix the host last evaluated, reads as before. Under the
  assumption that the host preserves the world transform of a fragment across
  reparenting this is also the world matrix the fragment keeps; what the host's own
  evaluation makes of it is \<open>evaluate\<close> below.
\<close>

definition set_parent :: "nat \<Rightarrow> fragment \<Rightarrow> fragment" where
  "set_parent a f = f\<lparr>parent := Some a\<rparr>"

text \<open>
  \<open>empty.location += d\<close> for the Empty with reference \<open>a\<close>. The host is taken to move the
  children of the Empty rigidly with it: the world matrix of every fragment whose parent
  is \<open>a\<close> is translated by \<open>d\<close>, and no other fragment moves.
\<close>

definition location_iadd ::
  "nat \<Rightarrow> vec \<Rightarrow> fragment list \<times> empty_object list \<Rightarrow> fragment list \<times> empty_object list" where
  "location_iadd a d s =
     (map (\<lambda>f. if parent f = Some a then f\<lparr>matrix_world := translate d (matrix_world f)\<rparr> else f)
        (fst s),
      (snd s)[a := (snd s ! a)\<lparr>location := vec_add (location (snd s ! a)) d\<rparr>])"


subsection \<open>\<open>grid_cell_center\<close>\<close>

text \<open>
  The same function in \<open>CE-Tree-Grid.py\<close>, \<open>CE-trees-to-grid.py\<close> and
  \<open>Ce-Tree-Grid-with-Select-and-Zoom.py\<close>. The cell indices are integers (they come from
  \<open>enumerate\<close> and dictionary keys), the spacing is a float.
\<close>

definition grid_cell_center :: "int \<Rightarrow> int \<Rightarrow> real \<Rightarrow> vec" where
  "grid_cell_center cell_x cell_y spacing =
     Vector (of_int cell_x * spacing + spacing / 2)
            (of_int (- cell_y) * spacing - spacing / 2)
            0"

subsection \<open>\<open>align_group_with_empty\<close> of \<open>CE-Tree-Grid.py\<close>\<close>

text \<open>
  The loop that fills \<open>all_coords\<close>: every corner of every fragment, in world space.
  Iterating over a \<open>bound_box\<close> that reads as \<open>None\<close> raises \<open>TypeError\<close>.
\<close>

fun all_coords_of :: "fragment list \<Rightarrow> py_error + vec list" where
  "all_coords_of [] = Inr []"
| "all_coords_of (obj # objs) =
     (case bound_box obj of
        None \<Rightarrow> Inl TypeError
      | Some bb \<Rightarrow>
          ebind (all_coords_of objs)
            (\<lambda>rest. Inr (map (\<lambda>v. mat_mul_vec (matrix_world obj) v) bb @ rest)))"

text \<open>
  The routine mutates the imported objects and the collection and returns nothing; the
  model returns both as they are afterwards. The new Empty is appended to the collection,
  so its reference is the old length of the collection.
\<close>

definition align_group_with_empty ::
  "fragment list \<Rightarrow> int \<Rightarrow> int \<Rightarrow> real \<Rightarrow> string \<Rightarrow> empty_object list
     \<Rightarrow> py_error + (fragment list \<times> empty_object list)" where
  "align_group_with_empty imported_objs cell_x cell_y spacing style_name tree_collection =
     (if imported_objs = [] then Inr (imported_objs, tree_collection)
      else
        let style_empty = length tree_collection;
            tree_collection1 = tree_collection @ [objects_new style_name];
            objs1 = map (set_parent style_empty) imported_objs
        in ebind (all_coords_of objs1) (\<lambda>all_coords.
             if all_coords \<noteq> [] then
               ebind (py_min (map vx all_coords)) (\<lambda>min_x.
               ebind (py_min (map vy all_coords)) (\<lambda>min_y.
               ebind (py_min (map vz all_coords)) (\<lambda>min_z.
               ebind (py_max (map vx all_coords)) (\<lambda>max_x.
               ebind (py_max (map vy all_coords)) (\<lambda>max_y.
               ebind (py_max (map vz all_coords)) (\<lambda>max_z.
                 let min_corner = Vector min_x min_y min_z;
                     max_corner = Vector max_x max_y max_z;
                     center = vec_div (vec_add min_corner max_corner) 2;
                     target = grid_cell_center cell_x cell_y spacing;
                     offset = Vector (vx target - vx center) (vy target - vy center)
                                (- vz min_corner)
                 in Inr (location_iadd style_empty offset (objs1, tree_collection1))))))))
             else Inr (objs1, tree_collection1)))"

subsection \<open>\<open>compute_world_bbox\<close> and \<open>align_group_with_empty\<close> of \<open>CE-trees-to-grid.py\<close>\<close>

text \<open>The loop that fills \<open>coords\<close>; a fragment without a bounding box is skipped.\<close>

fun coords_of :: "fragment list \<Rightarrow> vec list" where
  "coords_of [] = []"
| "coords_of (obj # objs) =
     (case bound_box obj of
        None \<Rightarrow> coords_of objs
      | Some bb \<Rightarrow> map (\<lambda>v. mat_mul_vec (matrix_world obj) v) bb @ coords_of objs)"

text \<open>The result \<open>(None, None, None)\<close> of the source is \<open>None\<close> here.\<close>

definition compute_world_bbox :: "fragment list \<Rightarrow> py_error + (vec \<times> vec \<times> vec) option" where
  "compute_world_bbox objs =
     (let coords = coords_of objs in
      if coords = [] then Inr None
      else
        ebind (py_min (map vx coords)) (\<lambda>min_x.
        ebind (py_min (map vy coords)) (\<lambda>min_y.
        ebind (py_min (map vz coords)) (\<lambda>min_z.
        ebind (py_max (map vx coords)) (\<lambda>max_x.
        ebind (py_max (map vy coords)) (\<lambda>max_y.
        ebind (py_max (map vz coords)) (\<lambda>max_z.
          let min_corner = Vector min_x min_y min_z;
              max_corner = Vector max_x max_y max_z;
              center = vec_div (vec_add min_corner max_corner) 2
          in Inr (Some (min_corner, max_corner, center)))))))))"

text \<open>
  This variant returns the Empty (or \<open>None\<close>); the model returns its reference, with the
  imported objects and the collection as they are afterwards.
\<close>

definition align_group_with_empty_t2g ::
  "fragment list \<Rightarrow> int \<Rightarrow> int \<Rightarrow> real \<Rightarrow> string \<Rightarrow> empty_object list
     \<Rightarrow> py_error + (nat option \<times> fragment list \<times> empty_object list)" where
  "align_group_with_empty_t2g imported_objs cell_x cell_y spacing group_name collection =
     (if imported_objs = [] then Inr (None, imported_objs, collection)
      else
        let empty = length collection;
            collection1 = collection @ [objects_new group_name];
            objs1 = map (set_parent empty) imported_objs
        in ebind (compute_world_bbox objs1) (\<lambda>bbox.
             case bbox of
               None \<Rightarrow> Inr (Some empty, objs1, collection1)
             | Some (min_corner, max_corner, center) \<Rightarrow>
                 let target = grid_cell_center cell_x cell_y spacing;
                     offset = Vector (vx target - vx center) (vy target - vy center)
                                (- vz min_corner)
                 in Inr (Some empty, location_iadd empty offset (objs1, collection1))))"

section \<open>The placement as the specification words it\<close>

text \<open>
  The specification describes the union bounding box as an accumulation: every corner of
  every fragment is transformed into world space and folded into a running
  component-wise minimum and maximum. \<open>union_bbox_spec\<close> follows these words; it is
  compared with the code below.
\<close>

fun accumulate_corner :: "(vec \<times> vec) option \<Rightarrow> vec \<Rightarrow> (vec \<times> vec) option" where
  "accumulate_corner None v = Some (v, v)"
| "accumulate_corner (Some (lo, hi)) v =
     Some (Vector (min (vx lo) (vx v)) (min (vy lo) (vy v)) (min (vz lo) (vz v)),
           Vector (max (vx hi) (vx v)) (max (vy hi) (vy v)) (max (vz hi) (vz v)))"

definition world_corners :: "fragment \<Rightarrow> vec list" where
  "world_corners f =
     (case bound_box f of None \<Rightarrow> [] | Some bb \<Rightarrow> map (mat_mul_vec (matrix_world f)) bb)"

definition union_bbox_spec :: "fragment list \<Rightarrow> (vec \<times> vec) option" where
  "union_bbox_spec objs =
     foldl (\<lambda>acc f. foldl accumulate_corner acc (world_corners f)) None objs"

section \<open>The origin-shift session of the LOD editing scripts\<close>

text \<open>
  \<open>Edit-large-3D-LOD-model.py\<close> and \<open>Edit-large-3d_LOD-models-improved.py\<close> hold the same
  three operators (the first prints each restored object in addition); they are modelled
  once.

  An object of the host: its name, whether its type is \<open>'MESH'\<close>, its location, its data
  (a reference to a mesh datablock, or nothing), its world matrix as the host last
  evaluated it, and whether it belongs to the current scene. A reference to an object is
  its index in \<open>bpy.data.objects\<close>, a reference to a mesh datablock its index in
  \<open>bpy.data.meshes\<close>; a removed datablock leaves \<open>None\<close> at its index. Selection and the
  active object are view state and are not modelled.
\<close>

datatype object_type = MESH | OTHER

record bobject =
  obj_name :: string
  obj_type :: object_type
  obj_location :: vec
  obj_data :: "nat option"
  obj_matrix_world :: matrix
  in_scene :: bool

text \<open>The host's data together with the four module-level globals of the scripts.\<close>

record lod_state =
  objects :: "bobject list"
  meshes :: "vec list option list"
  original_positions_store :: "(string \<times> vec) list"
  original_geometry_store :: "(string \<times> nat) list"
  selected_reference_name :: "string option"
  scene_offset_vector :: vec

datatype op_result = FINISHED | CANCELLED

datatype report_level = INFO | WARNING

text \<open>
  The messages of \<open>self.report\<close>, with the values they are formatted from:
  \<^item> \<open>NoReferenceSelected\<close>: "No reference object selected. Run 'Select Random Model' first."
  \<^item> \<open>ReferenceNotFound n\<close>: "Reference object 'n' not found."
  \<^item> \<open>Centered n k\<close>: "Centered n at origin and repositioned k mesh objects."
  \<^item> \<open>NoActiveSession\<close>: "No active session. Move reference to origin first."
  \<^item> \<open>NoNewMeshes\<close>: "No new mesh objects found."
  \<^item> \<open>RegisteredMesh n\<close>: "Registered new mesh n for restore."
  \<^item> \<open>RegisteredCount k\<close>: "Registered k new mesh objects for restore."
  \<^item> \<open>NoStoredPositions\<close>: "No stored positions found. Move reference to origin first."
  \<^item> \<open>Restored k\<close>: "Restored k objects to original positions and geometry."
\<close>

datatype message =
    NoReferenceSelected
  | ReferenceNotFound string
  | Centered string nat
  | NoActiveSession
  | NoNewMeshes
  | RegisteredMesh string
  | RegisteredCount nat
  | NoStoredPositions
  | Restored nat

type_synonym report = "report_level \<times> message"

subsection \<open>Host operations\<close>

text \<open>\<open>bpy.data.objects.get(name)\<close>: the first object with that name, or \<open>None\<close>.\<close>

fun objects_get :: "bobject list \<Rightarrow> string \<Rightarrow> nat option" where
  "objects_get [] nm = None"
| "objects_get (ob # obs) nm =
     (if obj_name ob = nm then Some 0 else map_option Suc (objects_get obs nm))"

text \<open>Reading a datablock through a reference; a removed or unknown datablock gives \<open>None\<close>.\<close>

definition mesh_verts :: "vec list option list \<Rightarrow> nat \<Rightarrow> vec list option" where
  "mesh_verts ms m = (if m < length ms then ms ! m else None)"

text \<open>
  \<open>bpy.data.meshes.remove(mesh)\<close> with its default \<open>do_unlink=True\<close>. The host's
  documentation of this parameter: "Unlink all usages of this mesh before deleting it
  (WARNING: will also delete objects instancing that mesh data)". So the datablock goes,
  and with it every object whose data it still is.
\<close>

definition meshes_remove :: "nat \<Rightarrow> lod_state \<Rightarrow> lod_state" where
  "meshes_remove m s =
     s\<lparr>meshes := (meshes s)[m := None],
       objects := filter (\<lambda>ob. obj_data ob \<noteq> Some m) (objects s)\<rparr>"

text \<open>Assignment to a key of a dictionary that keeps insertion order.\<close>

fun dict_set :: "(string \<times> nat) list \<Rightarrow> string \<Rightarrow> nat \<Rightarrow> (string \<times> nat) list" where
  "dict_set [] k v = [(k, v)]"
| "dict_set ((k', v') # d) k v =
     (if k' = k then (k, v) # d else (k', v') # dict_set d k v)"

subsection \<open>\<open>OBJECT_OT_MoveReferenceToOrigin.execute\<close>\<close>

text \<open>\<open>sum((v.co for v in bm.verts), Vector()) / len(bm.verts)\<close>, or the origin without vertices.\<close>

definition geometry_center :: "vec list \<Rightarrow> vec" where
  "geometry_center verts =
     (if verts \<noteq> [] then vec_div (foldl vec_add (Vector 0 0 0) verts) (of_nat (length verts))
      else Vector 0 0 0)"

definition scene_meshes :: "bobject list \<Rightarrow> bobject list" where
  "scene_meshes obs = filter (\<lambda>ob. in_scene ob \<and> obj_type ob = MESH) obs"

text \<open>The last loop: every mesh object of the scene other than the reference is moved.\<close>

definition move_others :: "nat \<Rightarrow> vec \<Rightarrow> bobject list \<Rightarrow> bobject list" where
  "move_others ref offset_vector obs =
     map (\<lambda>i. let ob = obs ! i in
               if in_scene ob \<and> obj_type ob = MESH \<and> i \<noteq> ref
               then ob\<lparr>obj_location := vec_add (obj_location ob) offset_vector\<rparr> else ob)
         [0..<length obs]"

text \<open>
  \<open>bm.from_mesh(ref_obj.data)\<close> raises \<open>TypeError\<close> when the object has no mesh data, and
  a reference to a removed datablock raises \<open>ReferenceError\<close>; the state at a raise is not
  tracked. A cancelled run returns the state it was given.
\<close>

definition move_reference_to_origin ::
  "lod_state \<Rightarrow> py_error + (op_result \<times> report list \<times> lod_state)" where
  "move_reference_to_origin s =
     (case selected_reference_name s of
        None \<Rightarrow> Inr (CANCELLED, [(WARNING, NoReferenceSelected)], s)
      | Some nm \<Rightarrow>
          if nm = [] then Inr (CANCELLED, [(WARNING, NoReferenceSelected)], s)
          else
            (case objects_get (objects s) nm of
               None \<Rightarrow> Inr (CANCELLED, [(WARNING, ReferenceNotFound nm)], s)
             | Some ref \<Rightarrow>
                 let ref_obj = objects s ! ref;
                     positions = map (\<lambda>ob. (obj_name ob, obj_location ob)) (scene_meshes (objects s))
                 in (case obj_data ref_obj of
                       None \<Rightarrow> Inl TypeError
                     | Some m \<Rightarrow>
                         (case mesh_verts (meshes s) m of
                            None \<Rightarrow> Inl ReferenceError
                          | Some verts \<Rightarrow>
                              let original_mesh = length (meshes s);
                                  meshes1 = meshes s @ [Some verts];
                                  geometry = dict_set [] (obj_name ref_obj) original_mesh;
                                  center = geometry_center verts;
                                  geometry_center_world =
                                    mat_mul_vec (obj_matrix_world ref_obj) center;
                                  meshes2 = meshes1[m := Some (map (\<lambda>v. vec_sub v center) verts)];
                                  obs1 = (objects s)
                                           [ref := ref_obj\<lparr>obj_location := Vector 0 0 0\<rparr>];
                                  offset_vector = vec_neg geometry_center_world;
                                  obs2 = move_others ref offset_vector obs1
                              in Inr (FINISHED,
                                      [(INFO, Centered (obj_name ref_obj)
                                                (length (scene_meshes obs2)))],
                                      s\<lparr>objects := obs2,
                                        meshes := meshes2,
                                        original_positions_store := positions,
                                        original_geometry_store := geometry,
                                        scene_offset_vector := offset_vector\<rparr>)))))"

subsection \<open>\<open>OBJECT_OT_RegisterNewMeshes.execute\<close>\<close>

definition register_new_meshes :: "lod_state \<Rightarrow> op_result \<times> report list \<times> lod_state" where
  "register_new_meshes s =
     (if original_positions_store s = [] then (CANCELLED, [(WARNING, NoActiveSession)], s)
      else
        let stored_names = set (map fst (original_positions_store s));
            new_meshes = filter (\<lambda>ob. obj_name ob \<notin> stored_names) (scene_meshes (objects s))
        in if new_meshes = [] then (FINISHED, [(INFO, NoNewMeshes)], s)
           else
             (FINISHED,
              map (\<lambda>ob. (INFO, RegisteredMesh (obj_name ob))) new_meshes
                @ [(INFO, RegisteredCount (length new_meshes))],
              s\<lparr>original_positions_store :=
                  original_positions_store s
                    @ map (\<lambda>ob. (obj_name ob, vec_sub (obj_location ob) (scene_offset_vector s)))
                        new_meshes\<rparr>))"

subsection \<open>\<open>OBJECT_OT_RestoreOriginalPosition.execute\<close>\<close>

text \<open>One round of the first loop: the objects and \<open>restored_count\<close>.\<close>

definition restore_position :: "bobject list \<times> nat \<Rightarrow> string \<times> vec \<Rightarrow> bobject list \<times> nat" where
  "restore_position acc entry =
     (case objects_get (fst acc) (fst entry) of
        None \<Rightarrow> acc
      | Some i \<Rightarrow> ((fst acc)[i := (fst acc ! i)\<lparr>obj_location := snd entry\<rparr>], Suc (snd acc)))"

text \<open>One round of the second loop: the stored copy becomes the object's data, the old datablock is removed.\<close>

definition restore_geometry :: "lod_state \<Rightarrow> string \<times> nat \<Rightarrow> lod_state" where
  "restore_geometry s entry =
     (case objects_get (objects s) (fst entry) of
        None \<Rightarrow> s
      | Some i \<Rightarrow>
          (case obj_data (objects s ! i) of
             None \<Rightarrow> s
           | Some old_mesh \<Rightarrow>
               meshes_remove old_mesh
                 (s\<lparr>objects := (objects s)[i := (objects s ! i)\<lparr>obj_data := Some (snd entry)\<rparr>]\<rparr>)))"

definition restore_original_position :: "lod_state \<Rightarrow> op_result \<times> report list \<times> lod_state" where
  "restore_original_position s =
     (if original_positions_store s = [] then (CANCELLED, [(WARNING, NoStoredPositions)], s)
      else
        let restored = foldl restore_position (objects s, 0) (original_positions_store s);
            s1 = foldl restore_geometry (s\<lparr>objects := fst restored\<rparr>) (original_geometry_store s)
        in (FINISHED,
            [(INFO, Restored (snd restored))],
            s1\<lparr>original_positions_store := [],
               original_geometry_store := [],
               scene_offset_vector := Vector 0 0 0\<rparr>))"

section \<open>Example scenes\<close>

text \<open>
  The eight corners of a local bounding box between two opposite corners, in the order of
  the host's \<open>bound_box\<close>, and a world matrix that only translates.
\<close>

definition box_corners :: "vec \<Rightarrow> vec \<Rightarrow> vec list" where
  "box_corners lo hi =
     [Vector (vx lo) (vy lo) (vz lo), Vector (vx lo) (vy lo) (vz hi),
      Vector (vx lo) (vy hi) (vz hi), Vector (vx lo) (vy hi) (vz lo),
      Vector (vx hi) (vy lo) (vz lo), Vector (vx hi) (vy lo) (vz hi),
      Vector (vx hi) (vy hi) (vz hi), Vector (vx hi) (vy hi) (vz lo)]"

definition translation_matrix :: "vec \<Rightarrow> matrix" where
  "translation_matrix t = Matrix (1, 0, 0, vx t) (0, 1, 0, vy t) (0, 0, 1, vz t)"

text \<open>
  Three fragments whose combined world bounding box is \<open>min = (10, 10, 2)\<close>,
  \<open>max = (20, 14, 6)\<close>, the example of the specification.
\<close>

definition example_group :: "fragment list" where
  "example_group =
     [\<lparr>bound_box = Some (box_corners (Vector 0 0 0) (Vector 2 2 2)),
       matrix_world = translation_matrix (Vector 10 10 2), parent = None\<rparr>,
      \<lparr>bound_box = Some (box_corners (Vector 0 0 0) (Vector 1 1 1)),
       matrix_world = translation_matrix (Vector 19 13 5), parent = None\<rparr>,
      \<lparr>bound_box = Some (box_corners (Vector (- 1) (- 1) (- 1)) (Vector 1 1 1)),
       matrix_world = translation_matrix (Vector 15 12 4), parent = None\<rparr>]"

text \<open>The same three fragments after their placement in cell \<open>(1, 0)\<close> with spacing 50.\<close>

definition example_placed :: "fragment list" where
  "example_placed =
     [\<lparr>bound_box = Some (box_corners (Vector 0 0 0) (Vector 2 2 2)),
       matrix_world = translation_matrix (Vector 70 (- 27) 0), parent = Some 0\<rparr>,
      \<lparr>bound_box = Some (box_corners (Vector 0 0 0) (Vector 1 1 1)),
       matrix_world = translation_matrix (Vector 79 (- 24) 3), parent = Some 0\<rparr>,
      \<lparr>bound_box = Some (box_corners (Vector (- 1) (- 1) (- 1)) (Vector 1 1 1)),
       matrix_world = translation_matrix (Vector 75 (- 25) 2), parent = Some 0\<rparr>]"



text \<open>
  A scene of the LOD editing scripts: two mesh objects with a mesh datablock each and a
  camera; \<open>Tower\<close> is the selected reference. \<open>example_moved\<close> is the same scene after
  Move Reference to Origin.
\<close>

definition example_scene :: lod_state where
  "example_scene =
     \<lparr>objects =
        [\<lparr>obj_name = ''Tower'', obj_type = MESH, obj_location = Vector 1000 2000 0,
          obj_data = Some 0, obj_matrix_world = translation_matrix (Vector 1000 2000 0),
          in_scene = True\<rparr>,
         \<lparr>obj_name = ''House'', obj_type = MESH, obj_location = Vector 1010 2000 5,
          obj_data = Some 1, obj_matrix_world = translation_matrix (Vector 1010 2000 5),
          in_scene = True\<rparr>,
         \<lparr>obj_name = ''Camera'', obj_type = OTHER, obj_location = Vector 0 0 10,
          obj_data = None, obj_matrix_world = translation_matrix (Vector 0 0 10),
          in_scene = True\<rparr>],
      meshes = [Some [Vector 0 0 0, Vector 2 4 6], Some [Vector 1 1 1]],
      original_positions_store = [],
      original_geometry_store = [],
      selected_reference_name = Some ''Tower'',
      scene_offset_vector = Vector 0 0 0\<rparr>"

definition example_moved :: lod_state where
  "example_moved =
     \<lparr>objects =
        [\<lparr>obj_name = ''Tower'', obj_type = MESH, obj_location = Vector 0 0 0,
          obj_data = Some 0, obj_matrix_world = translation_matrix (Vector 1000 2000 0),
          in_scene = True\<rparr>,
         \<lparr>obj_name = ''House'', obj_type = MESH, obj_location = Vector 9 (- 2) 2,
          obj_data = Some 1, obj_matrix_world = translation_matrix (Vector 1010 2000 5),
          in_scene = True\<rparr>,
         \<lparr>obj_name = ''Camera'', obj_type = OTHER, obj_location = Vector 0 0 10,
          obj_data = None, obj_matrix_world = translation_matrix (Vector 0 0 10),
          in_scene = True\<rparr>],
      meshes = [Some [Vector (- 1) (- 2) (- 3), Vector 1 2 3], Some [Vector 1 1 1],
                Some [Vector 0 0 0, Vector 2 4 6]],
      original_positions_store =
        [(''Tower'', Vector 1000 2000 0), (''House'', Vector 1010 2000 5)],
      original_geometry_store = [(''Tower'', 2)],
      selected_reference_name = Some ''Tower'',
      scene_offset_vector = Vector (- 1001) (- 2002) (- 3)\<rparr>"

text \<open>
  A scene in which a second mesh object is a linked duplicate of the reference: both
  objects use the mesh datablock 0. \<open>shared_moved\<close> is this scene after Move Reference to
  Origin.
\<close>

definition shared_scene :: lod_state where
  "shared_scene =
     \<lparr>objects =
        [\<lparr>obj_name = ''Tower'', obj_type = MESH, obj_location = Vector 1000 2000 0,
          obj_data = Some 0, obj_matrix_world = translation_matrix (Vector 1000 2000 0),
          in_scene = True\<rparr>,
         \<lparr>obj_name = ''Tower.001'', obj_type = MESH, obj_location = Vector 1010 2000 5,
          obj_data = Some 0, obj_matrix_world = translation_matrix (Vector 1010 2000 5),
          in_scene = True\<rparr>],
      meshes = [Some [Vector 0 0 0, Vector 2 4 6]],
      original_positions_store = [],
      original_geometry_store = [],
      selected_reference_name = Some ''Tower'',
      scene_offset_vector = Vector 0 0 0\<rparr>"

definition shared_moved :: lod_state where
  "shared_moved =
     \<lparr>objects =
        [\<lparr>obj_name = ''Tower'', obj_type = MESH, obj_location = Vector 0 0 0,
          obj_data = Some 0, obj_matrix_world = translation_matrix (Vector 1000 2000 0),
          in_scene = True\<rparr>,
         \<lparr>obj_name = ''Tower.001'', obj_type = MESH, obj_location = Vector 9 (- 2) 2,
          obj_data = Some 0, obj_matrix_world = translation_matrix (Vector 1010 2000 5),
          in_scene = True\<rparr>],
      meshes = [Some [Vector (- 1) (- 2) (- 3), Vector 1 2 3], Some [Vector 0 0 0, Vector 2 4 6]],
      original_positions_store =
        [(''Tower'', Vector 1000 2000 0), (''Tower.001'', Vector 1010 2000 5)],
      original_geometry_store = [(''Tower'', 1)],
      selected_reference_name = Some ''Tower'',
      scene_offset_vector = Vector (- 1001) (- 2002) (- 3)\<rparr>"

section \<open>Grid cells\<close>

text \<open>
  C3. For every column index, row index and spacing the centre of the grid cell is
  \<open>(col * s + s / 2, - row * s - s / 2, 0)\<close>: its Z component is 0, the centres of
  adjacent columns differ by the spacing in X, those of adjacent rows by the spacing in
  Y, and with a positive spacing a larger row index lies further in the negative Y
  direction.
\<close>

theorem grid_cell_center_formula:
  "grid_cell_center col row s
     = Vector (of_int col * s + s / 2) (- of_int row * s - s / 2) 0
   \<and> vz (grid_cell_center col row s) = 0
   \<and> vx (grid_cell_center (col + 1) row s) = vx (grid_cell_center col row s) + s
   \<and> vy (grid_cell_center col (row + 1) s) = vy (grid_cell_center col row s) - s
   \<and> (0 < s \<and> row < row' \<longrightarrow>
        vy (grid_cell_center col row' s) < vy (grid_cell_center col row s))"
  by (simp add: grid_cell_center_def algebra_simps)

theorem grid_cell_center_formula_witness:
  "grid_cell_center 1 0 50 = Vector 75 (- 25) 0
   \<and> (0 < (50::real) \<and> (0::int) < 2
       \<and> vy (grid_cell_center 1 2 50) < vy (grid_cell_center 1 0 50))"
  using grid_cell_center_formula [of 1 0 50 2] by (simp add: grid_cell_center_def)

section \<open>Auxiliary facts\<close>

lemma ebind_Inr [simp]: "ebind (Inr a) f = f a"
  by (simp add: ebind_def)

lemma ebind_Inl [simp]: "ebind (Inl e) f = Inl e"
  by (simp add: ebind_def)

lemma foldl_min_shift:
  "foldl (\<lambda>m v. if v < m then v else m) (x + d) (map (\<lambda>v. v + d) xs)
     = foldl (\<lambda>m v. if v < m then v else m) x xs + (d::real)"
  by (induction xs arbitrary: x) auto

lemma foldl_max_shift:
  "foldl (\<lambda>m v. if v > m then v else m) (x + d) (map (\<lambda>v. v + d) xs)
     = foldl (\<lambda>m v. if v > m then v else m) x xs + (d::real)"
  by (induction xs arbitrary: x) auto

lemma py_min_shift:
  "py_min (map (\<lambda>v. v + d) xs) = ebind (py_min xs) (\<lambda>m. Inr (m + d))"
  by (cases xs) (simp_all add: foldl_min_shift)

lemma py_max_shift:
  "py_max (map (\<lambda>v. v + d) xs) = ebind (py_max xs) (\<lambda>m. Inr (m + d))"
  by (cases xs) (simp_all add: foldl_max_shift)

lemma foldl_min_lower:
  "foldl (\<lambda>m v. if v < m then v else m) x xs \<le> x
   \<and> (\<forall>y\<in>set xs. foldl (\<lambda>m v. if v < m then v else m) x xs \<le> y)" for x :: real
proof (induction xs arbitrary: x)
  case Nil
  then show ?case by simp
next
  case (Cons y ys)
  show ?case using Cons [of "if y < x then y else x"] by (auto split: if_splits)
qed

lemma foldl_min_mem:
  "foldl (\<lambda>m v. if v < m then v else m) x xs \<in> set (x # xs)" for x :: real
proof (induction xs arbitrary: x)
  case Nil
  then show ?case by simp
next
  case (Cons y ys)
  show ?case using Cons [of "if y < x then y else x"] by (auto split: if_splits)
qed

lemma foldl_max_upper:
  "x \<le> foldl (\<lambda>m v. if v > m then v else m) x xs
   \<and> (\<forall>y\<in>set xs. y \<le> foldl (\<lambda>m v. if v > m then v else m) x xs)" for x :: real
proof (induction xs arbitrary: x)
  case Nil
  then show ?case by simp
next
  case (Cons y ys)
  show ?case using Cons [of "if y > x then y else x"] by (auto split: if_splits)
qed

lemma foldl_max_mem:
  "foldl (\<lambda>m v. if v > m then v else m) x xs \<in> set (x # xs)" for x :: real
proof (induction xs arbitrary: x)
  case Nil
  then show ?case by simp
next
  case (Cons y ys)
  show ?case using Cons [of "if y > x then y else x"] by (auto split: if_splits)
qed

lemma mat_mul_vec_translate:
  "mat_mul_vec (translate d m) v = vec_add (mat_mul_vec m v) d"
  by (cases m; cases "row0 m"; cases "row1 m"; cases "row2 m")
     (simp add: mat_mul_vec_def translate_def vec_add_def)

lemma coords_of_set_parent: "coords_of (map (set_parent a) objs) = coords_of objs"
  by (induction objs) (auto simp: set_parent_def split: option.splits)

lemma all_coords_of_set_parent: "all_coords_of (map (set_parent a) objs) = all_coords_of objs"
  by (induction objs) (auto simp: set_parent_def split: option.splits)

lemma all_coords_of_coords_of:
  "\<forall>f\<in>set objs. bound_box f \<noteq> None \<Longrightarrow> all_coords_of objs = Inr (coords_of objs)"
  by (induction objs) (auto split: option.splits)

lemma coords_of_moved:
  "\<forall>f\<in>set objs. parent f = Some a \<Longrightarrow>
   coords_of (map (\<lambda>f. if parent f = Some a then f\<lparr>matrix_world := translate d (matrix_world f)\<rparr> else f) objs)
     = map (\<lambda>v. vec_add v d) (coords_of objs)"
  by (induction objs) (auto simp: mat_mul_vec_translate split: option.splits)

lemma coords_of_nonempty:
  "\<exists>f\<in>set objs. \<exists>bb. bound_box f = Some bb \<and> bb \<noteq> [] \<Longrightarrow> coords_of objs \<noteq> []"
  by (induction objs) (auto split: option.splits)


lemma compute_world_bbox_cong:
  "coords_of objs' = coords_of objs \<Longrightarrow> compute_world_bbox objs' = compute_world_bbox objs"
  by (simp add: compute_world_bbox_def)

lemma compute_world_bbox_None: "compute_world_bbox objs = Inr None \<longleftrightarrow> coords_of objs = []"
proof (cases "coords_of objs")
  case Nil
  then show ?thesis by (simp add: compute_world_bbox_def)
next
  case (Cons v vs)
  then show ?thesis by (simp add: compute_world_bbox_def Let_def)
qed

lemma compute_world_bbox_Some:
  assumes "coords_of objs \<noteq> []"
  shows "\<exists>mn mx. compute_world_bbox objs = Inr (Some (mn, mx, vec_div (vec_add mn mx) 2))"
proof -
  obtain v vs where "coords_of objs = v # vs" using assms by (cases "coords_of objs") auto
  then show ?thesis by (simp add: compute_world_bbox_def Let_def)
qed

lemma map_vx_shift: "map vx (map (\<lambda>v. vec_add v d) cs) = map (\<lambda>x. x + vx d) (map vx cs)"
  by (simp add: vec_add_def)

lemma map_vy_shift: "map vy (map (\<lambda>v. vec_add v d) cs) = map (\<lambda>x. x + vy d) (map vy cs)"
  by (simp add: vec_add_def)

lemma map_vz_shift: "map vz (map (\<lambda>v. vec_add v d) cs) = map (\<lambda>x. x + vz d) (map vz cs)"
  by (simp add: vec_add_def)

lemma compute_world_bbox_shift:
  assumes "compute_world_bbox objs = Inr (Some (mn, mx, c))"
    and "coords_of objs' = map (\<lambda>v. vec_add v d) (coords_of objs)"
  shows "compute_world_bbox objs' = Inr (Some (vec_add mn d, vec_add mx d, vec_add c d))"
proof -
  have ne: "coords_of objs \<noteq> []"
    using assms(1) compute_world_bbox_None [of objs] by auto
  then obtain v vs where cs: "coords_of objs = v # vs" by (cases "coords_of objs") auto
  show ?thesis
    using assms(1)
    unfolding compute_world_bbox_def assms(2) Let_def map_vx_shift map_vy_shift map_vz_shift
      py_min_shift py_max_shift
    by (auto simp: cs vec_add_def vec_div_def add_divide_distrib)
qed

lemma compute_world_bbox_Nil: "compute_world_bbox [] = Inr None"
  by (simp add: compute_world_bbox_def)

lemma parent_set_parent: "\<forall>f\<in>set (map (set_parent a) objs). parent f = Some a"
  by (simp add: set_parent_def)

lemma placed_bbox:
  assumes "compute_world_bbox objs = Inr (Some (mn, mx, c))"
  shows "compute_world_bbox (fst (location_iadd a off (map (set_parent a) objs, coll1)))
           = Inr (Some (vec_add mn off, vec_add mx off, vec_add c off))"
proof -
  have "coords_of (fst (location_iadd a off (map (set_parent a) objs, coll1)))
          = map (\<lambda>v. vec_add v off) (coords_of objs)"
    unfolding location_iadd_def fst_conv
    using coords_of_moved [OF parent_set_parent]
    by (simp add: coords_of_set_parent)
  then show ?thesis using compute_world_bbox_shift [OF assms] by blast
qed

lemma align_t2g_eq:
  assumes "compute_world_bbox objs = Inr (Some (mn, mx, c))"
  shows "align_group_with_empty_t2g objs cx cy s nm coll
           = Inr (Some (length coll),
                  location_iadd (length coll)
                    (Vector (vx (grid_cell_center cx cy s) - vx c)
                            (vy (grid_cell_center cx cy s) - vy c) (- vz mn))
                    (map (set_parent (length coll)) objs, coll @ [objects_new nm]))"
proof -
  have ne: "objs \<noteq> []" using assms by (auto simp: compute_world_bbox_Nil)
  have "compute_world_bbox (map (set_parent (length coll)) objs) = Inr (Some (mn, mx, c))"
    using assms compute_world_bbox_cong [OF coords_of_set_parent] by simp
  then show ?thesis using ne
    by (simp add: align_group_with_empty_t2g_def Let_def)
qed

lemma align_t2g_no_coords:
  assumes "objs \<noteq> []" and "coords_of objs = []"
  shows "align_group_with_empty_t2g objs cx cy s nm coll
           = Inr (Some (length coll), map (set_parent (length coll)) objs, coll @ [objects_new nm])"
proof -
  have "compute_world_bbox (map (set_parent (length coll)) objs) = Inr None"
    using assms(2) by (simp add: compute_world_bbox_None coords_of_set_parent)
  then show ?thesis using assms(1)
    by (simp add: align_group_with_empty_t2g_def Let_def)
qed

lemma align_agree:
  assumes "\<forall>f\<in>set objs. bound_box f \<noteq> None"
  shows "align_group_with_empty objs cx cy s nm coll
           = ebind (align_group_with_empty_t2g objs cx cy s nm coll) (\<lambda>r. Inr (snd r))"
proof (cases "objs = []")
  case True
  then show ?thesis
    by (simp add: align_group_with_empty_def align_group_with_empty_t2g_def)
next
  case False
  have ac: "all_coords_of (map (set_parent (length coll)) objs) = Inr (coords_of objs)"
    using all_coords_of_coords_of [OF assms] by (simp add: all_coords_of_set_parent)
  show ?thesis
  proof (cases "coords_of objs")
    case Nil
    then show ?thesis using False ac align_t2g_no_coords [OF False Nil]
      by (simp add: align_group_with_empty_def Let_def)
  next
    case (Cons v vs)
    then have "coords_of objs \<noteq> []" by simp
    then obtain mn mx where bb: "compute_world_bbox objs = Inr (Some (mn, mx, vec_div (vec_add mn mx) 2))"
      using compute_world_bbox_Some by blast
    have mm: "mn = Vector (foldl (\<lambda>m v. if v < m then v else m) (vx v) (map vx vs))
                         (foldl (\<lambda>m v. if v < m then v else m) (vy v) (map vy vs))
                         (foldl (\<lambda>m v. if v < m then v else m) (vz v) (map vz vs))
            \<and> mx = Vector (foldl (\<lambda>m v. if v > m then v else m) (vx v) (map vx vs))
                         (foldl (\<lambda>m v. if v > m then v else m) (vy v) (map vy vs))
                         (foldl (\<lambda>m v. if v > m then v else m) (vz v) (map vz vs))"
      using bb by (simp add: compute_world_bbox_def Let_def Cons)
    show ?thesis
      unfolding align_t2g_eq [OF bb]
      using False ac mm
      by (simp add: align_group_with_empty_def Let_def Cons)
  qed
qed




lemma location_iadd_new:
  "location_iadd (length coll) d (fs, coll @ [e])
     = (map (\<lambda>f. if parent f = Some (length coll)
                   then f\<lparr>matrix_world := translate d (matrix_world f)\<rparr> else f) fs,
        coll @ [e\<lparr>location := vec_add (location e) d\<rparr>])"
  by (simp add: location_iadd_def)


lemma example_group_has_corner:
  "\<exists>f\<in>set example_group. \<exists>bb. bound_box f = Some bb \<and> bb \<noteq> []"
  by (simp add: example_group_def box_corners_def)

lemma example_group_boxes: "\<forall>f\<in>set example_group. bound_box f \<noteq> None"
  by (simp add: example_group_def)

lemma example_group_boxes_image: "None \<notin> bound_box ` set example_group"
  by (simp add: example_group_def)

lemma example_group_bbox:
  "compute_world_bbox example_group = Inr (Some (Vector 10 10 2, Vector 20 14 6, Vector 15 12 4))"
  by (simp add: compute_world_bbox_def example_group_def box_corners_def translation_matrix_def
      mat_mul_vec_def vec_add_def vec_div_def Let_def)

lemma all_coords_of_error: "all_coords_of objs = Inl e \<Longrightarrow> e = TypeError"
proof (induction objs)
  case Nil
  then show ?case by simp
next
  case (Cons f fs)
  then show ?case
    by (cases "bound_box f"; cases "all_coords_of fs") auto
qed


lemma align_error: 
  assumes "align_group_with_empty objs cx cy s nm coll = Inl e"
  shows "e = TypeError"
proof (cases "all_coords_of (map (set_parent (length coll)) objs)")
  case (Inl e')
  then have "e' = TypeError" by (rule all_coords_of_error)
  then show ?thesis using assms Inl
    by (simp add: align_group_with_empty_def Let_def split: if_splits)
next
  case (Inr cs)
  then show ?thesis using assms
    by (cases cs) (simp_all add: align_group_with_empty_def Let_def split: if_splits)
qed


lemma align_t2g_total: "\<exists>r. align_group_with_empty_t2g objs cx cy s nm coll = Inr r"
proof (cases "objs = []")
  case True
  then show ?thesis by (simp add: align_group_with_empty_t2g_def)
next
  case False
  show ?thesis
  proof (cases "coords_of objs = []")
    case True
    then show ?thesis using align_t2g_no_coords [OF False True] by simp
  next
    case ne: False
    then obtain mn mx where "compute_world_bbox objs = Inr (Some (mn, mx, vec_div (vec_add mn mx) 2))"
      using compute_world_bbox_Some by blast
    then show ?thesis using align_t2g_eq by blast
  qed
qed

lemma coords_of_no_corners:
  "\<forall>f\<in>set objs. bound_box f = None \<or> bound_box f = Some [] \<Longrightarrow> coords_of objs = []"
  by (induction objs) auto

lemma matrix_world_set_parent:
  "map matrix_world (map (set_parent a) objs) = map matrix_world objs"
  by (simp add: set_parent_def)

lemma bound_box_set_parent:
  "map bound_box (map (set_parent a) objs) = map bound_box objs"
  by (simp add: set_parent_def)



lemma example_group_placed:
  "align_group_with_empty_t2g example_group 1 0 50 ''Fan'' []
     = Inr (Some 0, example_placed, [\<lparr>empty_name = ''Fan'', location = Vector 60 (- 37) (- 2)\<rparr>])"
  unfolding align_t2g_eq [OF example_group_bbox]
  by (simp add: location_iadd_def grid_cell_center_def set_parent_def example_group_def
      example_placed_def translate_def translation_matrix_def objects_new_def vec_add_def)

lemma example_group_placed_ce:
  "align_group_with_empty example_group 1 0 50 ''Fan'' []
     = Inr (example_placed, [\<lparr>empty_name = ''Fan'', location = Vector 60 (- 37) (- 2)\<rparr>])"
  using align_agree [OF example_group_boxes, of 1 0 50 "''Fan''" "[]"] example_group_placed
  by simp

lemma accumulate_fold:
  "foldl accumulate_corner (Some (lo, hi)) vs
     = Some (Vector (foldl (\<lambda>m v. if v < m then v else m) (vx lo) (map vx vs))
                    (foldl (\<lambda>m v. if v < m then v else m) (vy lo) (map vy vs))
                    (foldl (\<lambda>m v. if v < m then v else m) (vz lo) (map vz vs)),
             Vector (foldl (\<lambda>m v. if v > m then v else m) (vx hi) (map vx vs))
                    (foldl (\<lambda>m v. if v > m then v else m) (vy hi) (map vy vs))
                    (foldl (\<lambda>m v. if v > m then v else m) (vz hi) (map vz vs)))"
proof (induction vs arbitrary: lo hi)
  case Nil
  then show ?case by simp
next
  case (Cons v vs)
  have mins: "min (vx lo) (vx v) = (if vx v < vx lo then vx v else vx lo)"
             "min (vy lo) (vy v) = (if vy v < vy lo then vy v else vy lo)"
             "min (vz lo) (vz v) = (if vz v < vz lo then vz v else vz lo)"
    by (simp_all add: min_def)
  have maxs: "max (vx hi) (vx v) = (if vx v > vx hi then vx v else vx hi)"
             "max (vy hi) (vy v) = (if vy v > vy hi then vy v else vy hi)"
             "max (vz hi) (vz v) = (if vz v > vz hi then vz v else vz hi)"
    by (simp_all add: max_def)
  show ?case
    unfolding foldl_Cons accumulate_corner.simps Cons.IH list.map mins maxs vec.sel
    by (rule refl)
qed

lemma coords_of_Cons: "coords_of (f # fs) = world_corners f @ coords_of fs"
  by (simp add: world_corners_def split: option.splits)

lemma coords_of_concat: "coords_of objs = concat (map world_corners objs)"
  by (induction objs) (simp_all add: world_corners_def split: option.splits)

lemma union_fold:
  "foldl (\<lambda>acc f. foldl accumulate_corner acc (world_corners f)) acc objs
     = foldl accumulate_corner acc (coords_of objs)"
proof (induction objs arbitrary: acc)
  case Nil
  then show ?case by simp
next
  case (Cons f fs)
  show ?case unfolding coords_of_Cons foldl_append foldl_Cons Cons.IH by (rule refl)
qed

lemma compute_world_bbox_spec:
  "compute_world_bbox objs
     = Inr (case union_bbox_spec objs of
              None \<Rightarrow> None
            | Some (lo, hi) \<Rightarrow> Some (lo, hi, vec_div (vec_add lo hi) 2))"
proof (cases "coords_of objs")
  case Nil
  then show ?thesis by (simp add: compute_world_bbox_def union_bbox_spec_def union_fold)
next
  case (Cons v vs)
  then show ?thesis
    by (simp add: compute_world_bbox_def union_bbox_spec_def union_fold accumulate_fold Let_def)
qed

lemma set_coords_of: "set (coords_of objs) = (\<Union>f\<in>set objs. set (world_corners f))"
  by (simp add: coords_of_concat)

lemma bbox_components:
  assumes "compute_world_bbox objs = Inr (Some (mn, mx, c))"
  shows "\<exists>v vs. coords_of objs = v # vs
           \<and> vx mn = foldl (\<lambda>m v. if v < m then v else m) (vx v) (map vx vs)
           \<and> vy mn = foldl (\<lambda>m v. if v < m then v else m) (vy v) (map vy vs)
           \<and> vz mn = foldl (\<lambda>m v. if v < m then v else m) (vz v) (map vz vs)
           \<and> vx mx = foldl (\<lambda>m v. if v > m then v else m) (vx v) (map vx vs)
           \<and> vy mx = foldl (\<lambda>m v. if v > m then v else m) (vy v) (map vy vs)
           \<and> vz mx = foldl (\<lambda>m v. if v > m then v else m) (vz v) (map vz vs)
           \<and> c = vec_div (vec_add mn mx) 2"
proof (cases "coords_of objs")
  case Nil
  then show ?thesis using assms by (simp add: compute_world_bbox_def)
next
  case (Cons v vs)
  then show ?thesis using assms by (auto simp: compute_world_bbox_def Let_def)
qed

lemma bbox_bounds:
  assumes "compute_world_bbox objs = Inr (Some (mn, mx, c))" and "w \<in> set (coords_of objs)"
  shows "vx mn \<le> vx w \<and> vy mn \<le> vy w \<and> vz mn \<le> vz w
       \<and> vx w \<le> vx mx \<and> vy w \<le> vy mx \<and> vz w \<le> vz mx"
proof -
  obtain v vs where cs: "coords_of objs = v # vs"
    and mn: "vx mn = foldl (\<lambda>m v. if v < m then v else m) (vx v) (map vx vs)"
            "vy mn = foldl (\<lambda>m v. if v < m then v else m) (vy v) (map vy vs)"
            "vz mn = foldl (\<lambda>m v. if v < m then v else m) (vz v) (map vz vs)"
    and mx: "vx mx = foldl (\<lambda>m v. if v > m then v else m) (vx v) (map vx vs)"
            "vy mx = foldl (\<lambda>m v. if v > m then v else m) (vy v) (map vy vs)"
            "vz mx = foldl (\<lambda>m v. if v > m then v else m) (vz v) (map vz vs)"
    using bbox_components [OF assms(1)] by blast
  have w: "w = v \<or> w \<in> set vs" using assms(2) cs by auto
  show ?thesis
    unfolding mn mx
    using w foldl_min_lower [of "vx v" "map vx vs"] foldl_min_lower [of "vy v" "map vy vs"]
      foldl_min_lower [of "vz v" "map vz vs"] foldl_max_upper [of "vx v" "map vx vs"]
      foldl_max_upper [of "vy v" "map vy vs"] foldl_max_upper [of "vz v" "map vz vs"]
    by auto
qed

lemma bbox_attained:
  assumes "compute_world_bbox objs = Inr (Some (mn, mx, c))"
  shows "vx mn \<in> vx ` set (coords_of objs) \<and> vy mn \<in> vy ` set (coords_of objs)
       \<and> vz mn \<in> vz ` set (coords_of objs) \<and> vx mx \<in> vx ` set (coords_of objs)
       \<and> vy mx \<in> vy ` set (coords_of objs) \<and> vz mx \<in> vz ` set (coords_of objs)"
proof -
  obtain v vs where cs: "coords_of objs = v # vs"
    and mn: "vx mn = foldl (\<lambda>m v. if v < m then v else m) (vx v) (map vx vs)"
            "vy mn = foldl (\<lambda>m v. if v < m then v else m) (vy v) (map vy vs)"
            "vz mn = foldl (\<lambda>m v. if v < m then v else m) (vz v) (map vz vs)"
    and mx: "vx mx = foldl (\<lambda>m v. if v > m then v else m) (vx v) (map vx vs)"
            "vy mx = foldl (\<lambda>m v. if v > m then v else m) (vy v) (map vy vs)"
            "vz mx = foldl (\<lambda>m v. if v > m then v else m) (vz v) (map vz vs)"
    using bbox_components [OF assms(1)] by blast
  have s: "vx ` set (coords_of objs) = set (vx v # map vx vs)"
          "vy ` set (coords_of objs) = set (vy v # map vy vs)"
          "vz ` set (coords_of objs) = set (vz v # map vz vs)"
    by (simp_all add: cs)
  show ?thesis
    unfolding mn mx s
    using foldl_min_mem [of "vx v" "map vx vs"] foldl_min_mem [of "vy v" "map vy vs"]
      foldl_min_mem [of "vz v" "map vz vs"] foldl_max_mem [of "vx v" "map vx vs"]
      foldl_max_mem [of "vy v" "map vy vs"] foldl_max_mem [of "vz v" "map vz vs"]
    by blast
qed

lemma placed_fragments:
  "fst (location_iadd a d (map (set_parent a) objs, coll1))
     = map (\<lambda>f. f\<lparr>parent := Some a, matrix_world := translate d (matrix_world f)\<rparr>) objs"
  by (simp add: location_iadd_def set_parent_def)

lemma union_bbox_spec_Some:
  assumes "compute_world_bbox objs = Inr (Some (mn, mx, c))"
  shows "union_bbox_spec objs = Some (mn, mx)"
proof -
  have "Some (mn, mx, c)
          = (case union_bbox_spec objs of
               None \<Rightarrow> None
             | Some (lo, hi) \<Rightarrow> Some (lo, hi, vec_div (vec_add lo hi) 2))"
    using assms compute_world_bbox_spec [of objs] by simp
  then show ?thesis by (cases "union_bbox_spec objs") auto
qed

lemma placement_union_centred:
  assumes "\<exists>f\<in>set objs. \<exists>bb. bound_box f = Some bb \<and> bb \<noteq> []"
  shows "\<exists>d lo hi.
           align_group_with_empty_t2g objs cx cy s nm coll
             = Inr (Some (length coll),
                    map (\<lambda>f. f\<lparr>parent := Some (length coll),
                                matrix_world := translate d (matrix_world f)\<rparr>) objs,
                    coll @ [(objects_new nm)\<lparr>location := vec_add (location (objects_new nm)) d\<rparr>])
         \<and> union_bbox_spec
               (map (\<lambda>f. f\<lparr>parent := Some (length coll),
                           matrix_world := translate d (matrix_world f)\<rparr>) objs)
             = Some (lo, hi)
         \<and> (vx lo + vx hi) / 2 = vx (grid_cell_center cx cy s)
         \<and> (vy lo + vy hi) / 2 = vy (grid_cell_center cx cy s)
         \<and> vz lo = 0"
proof -
  obtain mn mx c where bb: "compute_world_bbox objs = Inr (Some (mn, mx, c))"
    using compute_world_bbox_Some [OF coords_of_nonempty [OF assms]] by blast
  have c: "c = vec_div (vec_add mn mx) 2" using bbox_components [OF bb] by blast
  define off where
    "off = Vector (vx (grid_cell_center cx cy s) - vx c) (vy (grid_cell_center cx cy s) - vy c)
             (- vz mn)"
  define objs' where
    "objs' = map (\<lambda>f. f\<lparr>parent := Some (length coll),
                          matrix_world := translate off (matrix_world f)\<rparr>) objs"
  have t2g: "align_group_with_empty_t2g objs cx cy s nm coll
               = Inr (Some (length coll), objs',
                      coll @ [(objects_new nm)\<lparr>location := vec_add (location (objects_new nm)) off\<rparr>])"
    using align_t2g_eq [OF bb, of cx cy s nm coll]
    by (simp add: off_def objs'_def location_iadd_new set_parent_def)
  have "compute_world_bbox objs'
               = Inr (Some (vec_add mn off, vec_add mx off, vec_add c off))"
    using placed_bbox [OF bb, of "length coll" off "coll @ [objects_new nm]"]
    unfolding placed_fragments objs'_def .
  then have box: "union_bbox_spec objs' = Some (vec_add mn off, vec_add mx off)"
    by (rule union_bbox_spec_Some)
  have geo: "(vx (vec_add mn off) + vx (vec_add mx off)) / 2 = vx (grid_cell_center cx cy s)
           \<and> (vy (vec_add mn off) + vy (vec_add mx off)) / 2 = vy (grid_cell_center cx cy s)
           \<and> vz (vec_add mn off) = 0"
    by (simp add: vec_add_def off_def c vec_div_def add_divide_distrib)
  show ?thesis
    using t2g box geo unfolding objs'_def by blast
qed

lemma compute_world_bbox_of_union:
  assumes "union_bbox_spec objs = Some (lo, hi)"
  shows "compute_world_bbox objs = Inr (Some (lo, hi, vec_div (vec_add lo hi) 2))"
  using assms compute_world_bbox_spec [of objs] by simp

lemma example_placed_union:
  "union_bbox_spec example_placed = Some (Vector 70 (- 27) 0, Vector 80 (- 23) 4)"
  by (simp add: union_bbox_spec_def world_corners_def example_placed_def box_corners_def
      translation_matrix_def mat_mul_vec_def)

















section \<open>Placement\<close>

text \<open>
  C1. For a group of which at least one fragment contributes a corner of its bounding
  box (a fragment of the host has eight, so this is every non-empty group of host
  objects), the placement succeeds and moves every fragment by one common translation.
  Afterwards the union of the world-space bounding boxes of the placed fragments, taken
  with the minimum and maximum of the specification and not with the routine's own, has
  the X and Y of its centre at the centre of the target grid cell and its minimum Z at
  0: no corner of a placed fragment lies below the ground plane or outside the box, one
  lies on the ground plane, and each side of the box is touched by a corner. The host is
  taken to preserve world transforms across reparenting and to move children rigidly
  with their Empty. The variant of \<open>CE-Tree-Grid.py\<close> needs every fragment to have a
  readable bounding box.
\<close>

theorem placement_centres_group:
  assumes "\<exists>f\<in>set objs. \<exists>bb. bound_box f = Some bb \<and> bb \<noteq> []"
  shows "\<exists>d lo hi objs'.
           objs' = map (\<lambda>f. f\<lparr>parent := Some (length coll),
                                matrix_world := translate d (matrix_world f)\<rparr>) objs
         \<and> align_group_with_empty_t2g objs cx cy s nm coll
             = Inr (Some (length coll), objs',
                    coll @ [(objects_new nm)\<lparr>location := vec_add (location (objects_new nm)) d\<rparr>])
         \<and> ((\<forall>f\<in>set objs. bound_box f \<noteq> None) \<longrightarrow>
              align_group_with_empty objs cx cy s nm coll
                = Inr (objs',
                       coll @ [(objects_new nm)\<lparr>location := vec_add (location (objects_new nm)) d\<rparr>]))
         \<and> union_bbox_spec objs' = Some (lo, hi)
         \<and> (vx lo + vx hi) / 2 = vx (grid_cell_center cx cy s)
         \<and> (vy lo + vy hi) / 2 = vy (grid_cell_center cx cy s)
         \<and> vz lo = 0
         \<and> (\<forall>f\<in>set objs'. \<forall>w\<in>set (world_corners f).
               vx lo \<le> vx w \<and> vx w \<le> vx hi \<and> vy lo \<le> vy w \<and> vy w \<le> vy hi
               \<and> 0 \<le> vz w \<and> vz w \<le> vz hi)
         \<and> (\<exists>f\<in>set objs'. \<exists>w\<in>set (world_corners f). vx w = vx lo)
         \<and> (\<exists>f\<in>set objs'. \<exists>w\<in>set (world_corners f). vx w = vx hi)
         \<and> (\<exists>f\<in>set objs'. \<exists>w\<in>set (world_corners f). vy w = vy lo)
         \<and> (\<exists>f\<in>set objs'. \<exists>w\<in>set (world_corners f). vy w = vy hi)
         \<and> (\<exists>f\<in>set objs'. \<exists>w\<in>set (world_corners f). vz w = 0)"
proof -
  obtain d lo hi where
    t2g: "align_group_with_empty_t2g objs cx cy s nm coll
             = Inr (Some (length coll),
                    map (\<lambda>f. f\<lparr>parent := Some (length coll),
                                matrix_world := translate d (matrix_world f)\<rparr>) objs,
                    coll @ [(objects_new nm)\<lparr>location := vec_add (location (objects_new nm)) d\<rparr>])"
    and box: "union_bbox_spec
               (map (\<lambda>f. f\<lparr>parent := Some (length coll),
                           matrix_world := translate d (matrix_world f)\<rparr>) objs)
             = Some (lo, hi)"
    and geo: "(vx lo + vx hi) / 2 = vx (grid_cell_center cx cy s)"
             "(vy lo + vy hi) / 2 = vy (grid_cell_center cx cy s)" "vz lo = 0"
    using placement_union_centred [OF assms, of cx cy s nm coll] by blast
  define objs' where
    "objs' = map (\<lambda>f. f\<lparr>parent := Some (length coll),
                          matrix_world := translate d (matrix_world f)\<rparr>) objs"
  have ce: "(\<forall>f\<in>set objs. bound_box f \<noteq> None) \<longrightarrow>
              align_group_with_empty objs cx cy s nm coll
                = Inr (objs',
                       coll @ [(objects_new nm)\<lparr>location := vec_add (location (objects_new nm)) d\<rparr>])"
    using align_agree [of objs cx cy s nm coll] t2g by (simp add: objs'_def)
  have cw: "compute_world_bbox objs' = Inr (Some (lo, hi, vec_div (vec_add lo hi) 2))"
    using compute_world_bbox_of_union box by (simp add: objs'_def)
  have bounds: "\<forall>f\<in>set objs'. \<forall>w\<in>set (world_corners f).
               vx lo \<le> vx w \<and> vx w \<le> vx hi \<and> vy lo \<le> vy w \<and> vy w \<le> vy hi
               \<and> 0 \<le> vz w \<and> vz w \<le> vz hi"
    using bbox_bounds [OF cw] geo(3) unfolding set_coords_of by auto
  have att: "(\<exists>f\<in>set objs'. \<exists>w\<in>set (world_corners f). vx w = vx lo)
         \<and> (\<exists>f\<in>set objs'. \<exists>w\<in>set (world_corners f). vx w = vx hi)
         \<and> (\<exists>f\<in>set objs'. \<exists>w\<in>set (world_corners f). vy w = vy lo)
         \<and> (\<exists>f\<in>set objs'. \<exists>w\<in>set (world_corners f). vy w = vy hi)
         \<and> (\<exists>f\<in>set objs'. \<exists>w\<in>set (world_corners f). vz w = 0)"
    using bbox_attained [OF cw] geo(3) unfolding set_coords_of by (auto; blast)
  show ?thesis
    using t2g ce box geo bounds att unfolding objs'_def by blast
qed

theorem placement_centres_group_witness:
  "(\<exists>f\<in>set example_group. \<exists>bb. bound_box f = Some bb \<and> bb \<noteq> [])
   \<and> None \<notin> bound_box ` set example_group
   \<and> align_group_with_empty_t2g example_group 1 0 50 ''Fan'' []
       = Inr (Some 0, example_placed, [\<lparr>empty_name = ''Fan'', location = Vector 60 (- 37) (- 2)\<rparr>])
   \<and> align_group_with_empty example_group 1 0 50 ''Fan'' []
       = Inr (example_placed, [\<lparr>empty_name = ''Fan'', location = Vector 60 (- 37) (- 2)\<rparr>])
   \<and> (\<exists>lo hi. union_bbox_spec example_placed = Some (lo, hi)
         \<and> (vx lo + vx hi) / 2 = 75 \<and> (vy lo + vy hi) / 2 = - 25 \<and> vz lo = 0
         \<and> (\<exists>f\<in>set example_placed. \<exists>w\<in>set (world_corners f). vz w = 0)
         \<and> list_all (\<lambda>w. vx lo \<le> vx w \<and> vx w \<le> vx hi \<and> vy lo \<le> vy w \<and> vy w \<le> vy hi
                       \<and> 0 \<le> vz w \<and> vz w \<le> vz hi)
              (concat (map world_corners example_placed)))
   \<and> union_bbox_spec example_placed = Some (Vector 70 (- 27) 0, Vector 80 (- 23) 4)"
proof -
  obtain d lo hi objs' where
    o: "objs' = map (\<lambda>f. f\<lparr>parent := Some (length ([]::empty_object list)),
                                matrix_world := translate d (matrix_world f)\<rparr>) example_group"
    and t: "align_group_with_empty_t2g example_group 1 0 50 ''Fan'' []
             = Inr (Some (length ([]::empty_object list)), objs',
                    [] @ [(objects_new ''Fan'')\<lparr>location := vec_add (location (objects_new ''Fan'')) d\<rparr>])"
    and u: "union_bbox_spec objs' = Some (lo, hi)"
    and g: "(vx lo + vx hi) / 2 = vx (grid_cell_center 1 0 50)"
           "(vy lo + vy hi) / 2 = vy (grid_cell_center 1 0 50)" "vz lo = 0"
    and b: "\<forall>f\<in>set objs'. \<forall>w\<in>set (world_corners f).
               vx lo \<le> vx w \<and> vx w \<le> vx hi \<and> vy lo \<le> vy w \<and> vy w \<le> vy hi
               \<and> 0 \<le> vz w \<and> vz w \<le> vz hi"
    and a: "\<exists>f\<in>set objs'. \<exists>w\<in>set (world_corners f). vz w = 0"
    using placement_centres_group [OF example_group_has_corner, of "[]" 1 0 50 "''Fan''"]
    by blast
  have p: "objs' = example_placed" using t example_group_placed by simp
  have "\<exists>lo hi. union_bbox_spec example_placed = Some (lo, hi)
         \<and> (vx lo + vx hi) / 2 = 75 \<and> (vy lo + vy hi) / 2 = - 25 \<and> vz lo = 0
         \<and> (\<exists>f\<in>set example_placed. \<exists>w\<in>set (world_corners f). vz w = 0)
         \<and> list_all (\<lambda>w. vx lo \<le> vx w \<and> vx w \<le> vx hi \<and> vy lo \<le> vy w \<and> vy w \<le> vy hi
                       \<and> 0 \<le> vz w \<and> vz w \<le> vz hi)
              (concat (map world_corners example_placed))"
    using u g b a unfolding p by (auto simp: grid_cell_center_def list_all_iff)
  then show ?thesis
    using example_group_has_corner example_group_boxes_image example_group_placed
      example_group_placed_ce example_placed_union
    by blast
qed

text \<open>
  C2. For a group whose union bounding box exists, the placement applies
  \<open>empty.location += offset\<close> with
  \<open>offset = (target.x - center.x, target.y - center.y, - min_corner.z)\<close> and
  \<open>center = (min_corner + max_corner) / 2\<close>; this operation adds the offset to whatever
  location the Empty has (it does not assign it). With \<open>min = (10, 10, 2)\<close>,
  \<open>max = (20, 14, 6)\<close>, cell \<open>(1, 0)\<close> and spacing 50 the target centre is
  \<open>(75, - 25, 0)\<close>, the offset is \<open>(60, - 37, - 2)\<close> and the new Empty ends there.
\<close>

theorem placement_offset_additive:
  assumes "compute_world_bbox objs = Inr (Some (min_corner, max_corner, center))"
  shows "center = vec_div (vec_add min_corner max_corner) 2
       \<and> align_group_with_empty_t2g objs cx cy s nm coll
           = Inr (Some (length coll),
                  location_iadd (length coll)
                    (Vector (vx (grid_cell_center cx cy s) - vx center)
                            (vy (grid_cell_center cx cy s) - vy center)
                            (- vz min_corner))
                    (map (set_parent (length coll)) objs, coll @ [objects_new nm]))
       \<and> ((\<forall>f\<in>set objs. bound_box f \<noteq> None) \<longrightarrow>
            align_group_with_empty objs cx cy s nm coll
              = Inr (location_iadd (length coll)
                       (Vector (vx (grid_cell_center cx cy s) - vx center)
                               (vy (grid_cell_center cx cy s) - vy center)
                               (- vz min_corner))
                       (map (set_parent (length coll)) objs, coll @ [objects_new nm])))
       \<and> snd (location_iadd (length coll) offset (fs, coll @ [e]))
           = coll @ [e\<lparr>location := vec_add (location e) offset\<rparr>]
       \<and> (min_corner = Vector 10 10 2 \<and> max_corner = Vector 20 14 6 \<and> cx = 1 \<and> cy = 0 \<and> s = 50
            \<longrightarrow> grid_cell_center cx cy s = Vector 75 (- 25) 0
              \<and> Vector (vx (grid_cell_center cx cy s) - vx center)
                        (vy (grid_cell_center cx cy s) - vy center)
                        (- vz min_corner)
                  = Vector 60 (- 37) (- 2)
              \<and> snd (location_iadd (length coll)
                        (Vector (vx (grid_cell_center cx cy s) - vx center)
                                (vy (grid_cell_center cx cy s) - vy center)
                                (- vz min_corner))
                        (map (set_parent (length coll)) objs, coll @ [objects_new nm]))
                  = coll @ [\<lparr>empty_name = nm, location = Vector 60 (- 37) (- 2)\<rparr>])"
proof -
  define off where
    "off = Vector (vx (grid_cell_center cx cy s) - vx center)
                  (vy (grid_cell_center cx cy s) - vy center) (- vz min_corner)"
  have ne: "coords_of objs \<noteq> []"
    using assms compute_world_bbox_None [of objs] by auto
  have c: "center = vec_div (vec_add min_corner max_corner) 2"
    using compute_world_bbox_Some [OF ne] assms by auto
  have t2g: "align_group_with_empty_t2g objs cx cy s nm coll
               = Inr (Some (length coll),
                      location_iadd (length coll) off
                        (map (set_parent (length coll)) objs, coll @ [objects_new nm]))"
    using align_t2g_eq [OF assms] by (simp add: off_def)
  have ce: "(\<forall>f\<in>set objs. bound_box f \<noteq> None) \<longrightarrow>
            align_group_with_empty objs cx cy s nm coll
               = Inr (location_iadd (length coll) off
                        (map (set_parent (length coll)) objs, coll @ [objects_new nm]))"
    using align_agree [of objs cx cy s nm coll] t2g by simp
  have add: "snd (location_iadd (length coll) offset (fs, coll @ [e]))
           = coll @ [e\<lparr>location := vec_add (location e) offset\<rparr>]"
    by (simp add: location_iadd_new)
  have ex: "min_corner = Vector 10 10 2 \<and> max_corner = Vector 20 14 6 \<and> cx = 1 \<and> cy = 0 \<and> s = 50
            \<longrightarrow> grid_cell_center cx cy s = Vector 75 (- 25) 0
              \<and> off = Vector 60 (- 37) (- 2)
              \<and> snd (location_iadd (length coll) off
                        (map (set_parent (length coll)) objs, coll @ [objects_new nm]))
                  = coll @ [\<lparr>empty_name = nm, location = Vector 60 (- 37) (- 2)\<rparr>]"
    using c
    by (simp add: location_iadd_new off_def grid_cell_center_def vec_add_def vec_div_def
        objects_new_def)
  show ?thesis
    using c t2g ce add ex unfolding off_def by blast
qed

theorem placement_offset_additive_witness:
  "compute_world_bbox example_group = Inr (Some (Vector 10 10 2, Vector 20 14 6, Vector 15 12 4))
   \<and> None \<notin> bound_box ` set example_group
   \<and> grid_cell_center 1 0 50 = Vector 75 (- 25) 0
   \<and> align_group_with_empty example_group 1 0 50 ''Fan'' []
       = Inr (location_iadd 0 (Vector 60 (- 37) (- 2))
                (map (set_parent 0) example_group, [objects_new ''Fan'']))
   \<and> align_group_with_empty_t2g example_group 1 0 50 ''Fan'' []
       = Inr (Some 0, location_iadd 0 (Vector 60 (- 37) (- 2))
                (map (set_parent 0) example_group, [objects_new ''Fan'']))
   \<and> snd (location_iadd 0 (Vector 60 (- 37) (- 2))
            (map (set_parent 0) example_group, [objects_new ''Fan'']))
       = [\<lparr>empty_name = ''Fan'', location = Vector 60 (- 37) (- 2)\<rparr>]"
  using placement_offset_additive [OF example_group_bbox, of 1 0 50 "''Fan''" "[]"]
    example_group_bbox example_group_boxes example_group_boxes_image
  by (simp add: grid_cell_center_def objects_new_def vec_add_def)

text \<open>
  C5. For an empty sequence of fragments both variants return at once: no Empty is
  created, nothing is reparented and nothing is moved.
\<close>

theorem empty_group_noop:
  "align_group_with_empty [] cx cy s nm coll = Inr ([], coll)
   \<and> align_group_with_empty_t2g [] cx cy s nm coll = Inr (None, [], coll)"
  by (simp add: align_group_with_empty_def align_group_with_empty_t2g_def)

text \<open>
  C6. Neither variant ever takes a minimum or maximum of an empty collection: the
  variant of \<open>CE-trees-to-grid.py\<close> always returns, and the variant of \<open>CE-Tree-Grid.py\<close>
  never raises \<open>ValueError\<close> (all divisions are by the constant 2). For a non-empty group
  of which no fragment contributes a corner, the Empty is created and parented and stays
  at the origin, and no world matrix changes.
\<close>

theorem no_corners_anchor_unmoved:
  "(\<exists>r. align_group_with_empty_t2g objs cx cy s nm coll = Inr r)
   \<and> align_group_with_empty objs cx cy s nm coll \<noteq> Inl ValueError
   \<and> (objs \<noteq> [] \<and> (\<forall>f\<in>set objs. bound_box f = None \<or> bound_box f = Some []) \<longrightarrow>
        align_group_with_empty_t2g objs cx cy s nm coll
          = Inr (Some (length coll), map (set_parent (length coll)) objs, coll @ [objects_new nm]))
   \<and> (objs \<noteq> [] \<and> (\<forall>f\<in>set objs. bound_box f = Some []) \<longrightarrow>
        align_group_with_empty objs cx cy s nm coll
          = Inr (map (set_parent (length coll)) objs, coll @ [objects_new nm]))
   \<and> location (objects_new nm) = Vector 0 0 0
   \<and> map matrix_world (map (set_parent (length coll)) objs) = map matrix_world objs"
proof -
  have a: "align_group_with_empty objs cx cy s nm coll \<noteq> Inl ValueError"
    using align_error [of objs cx cy s nm coll ValueError] by auto
  have b: "align_group_with_empty_t2g objs cx cy s nm coll
          = Inr (Some (length coll), map (set_parent (length coll)) objs, coll @ [objects_new nm])"
    if "objs \<noteq> [] \<and> (\<forall>f\<in>set objs. bound_box f = None \<or> bound_box f = Some [])"
    using that align_t2g_no_coords [of objs] coords_of_no_corners [of objs] by blast
  have c: "align_group_with_empty objs cx cy s nm coll
          = Inr (map (set_parent (length coll)) objs, coll @ [objects_new nm])"
    if h: "objs \<noteq> [] \<and> (\<forall>f\<in>set objs. bound_box f = Some [])"
  proof -
    have "\<forall>f\<in>set objs. bound_box f \<noteq> None" using h by auto
    moreover have "objs \<noteq> [] \<and> (\<forall>f\<in>set objs. bound_box f = None \<or> bound_box f = Some [])"
      using h by auto
    ultimately show ?thesis using align_agree [of objs] b by simp
  qed
  show ?thesis
    using a b c align_t2g_total [of objs cx cy s nm coll]
    by (simp add: objects_new_def set_parent_def)
qed

theorem no_corners_anchor_unmoved_witness:
  "[\<lparr>bound_box = Some [], matrix_world = translation_matrix (Vector 3 4 5), parent = None\<rparr>] \<noteq> []
   \<and> align_group_with_empty_t2g
        [\<lparr>bound_box = Some [], matrix_world = translation_matrix (Vector 3 4 5), parent = None\<rparr>]
        2 1 50 ''Fan'' []
      = Inr (Some 0,
             [\<lparr>bound_box = Some [], matrix_world = translation_matrix (Vector 3 4 5),
               parent = Some 0\<rparr>],
             [\<lparr>empty_name = ''Fan'', location = Vector 0 0 0\<rparr>])
   \<and> align_group_with_empty
        [\<lparr>bound_box = Some [], matrix_world = translation_matrix (Vector 3 4 5), parent = None\<rparr>]
        2 1 50 ''Fan'' []
      = Inr ([\<lparr>bound_box = Some [], matrix_world = translation_matrix (Vector 3 4 5),
               parent = Some 0\<rparr>],
             [\<lparr>empty_name = ''Fan'', location = Vector 0 0 0\<rparr>])"
  using no_corners_anchor_unmoved
    [of "[\<lparr>bound_box = Some [], matrix_world = translation_matrix (Vector 3 4 5), parent = None\<rparr>]"
        2 1 50 "''Fan''" "[]"]
  by (simp add: objects_new_def set_parent_def)




text \<open>
  C4. \<open>compute_world_bbox\<close> yields what the accumulation of the component-wise minimum
  and maximum over the world-space corners of all fragments yields, with the centre
  \<open>(min_corner + max_corner) / 2\<close>; the corners it returns bound every world-space corner
  and each of their components is attained by one. The inline computation of
  \<open>CE-Tree-Grid.py\<close> collects the same coordinates and places the group as the variant
  with \<open>compute_world_bbox\<close> does.
\<close>

theorem union_bbox_computation:
  "compute_world_bbox objs
     = Inr (case union_bbox_spec objs of
              None \<Rightarrow> None
            | Some (lo, hi) \<Rightarrow> Some (lo, hi, vec_div (vec_add lo hi) 2))
   \<and> (compute_world_bbox objs = Inr (Some (mn, mx, c)) \<longrightarrow>
        c = vec_div (vec_add mn mx) 2
        \<and> (\<forall>f\<in>set objs. \<forall>w\<in>set (world_corners f).
              vx mn \<le> vx w \<and> vy mn \<le> vy w \<and> vz mn \<le> vz w
              \<and> vx w \<le> vx mx \<and> vy w \<le> vy mx \<and> vz w \<le> vz mx)
        \<and> vx mn \<in> vx ` (\<Union>f\<in>set objs. set (world_corners f))
        \<and> vy mn \<in> vy ` (\<Union>f\<in>set objs. set (world_corners f))
        \<and> vz mn \<in> vz ` (\<Union>f\<in>set objs. set (world_corners f))
        \<and> vx mx \<in> vx ` (\<Union>f\<in>set objs. set (world_corners f))
        \<and> vy mx \<in> vy ` (\<Union>f\<in>set objs. set (world_corners f))
        \<and> vz mx \<in> vz ` (\<Union>f\<in>set objs. set (world_corners f)))
   \<and> ((\<forall>f\<in>set objs. bound_box f \<noteq> None) \<longrightarrow>
        all_coords_of objs = Inr (concat (map world_corners objs))
        \<and> align_group_with_empty objs cx cy s nm coll
            = ebind (align_group_with_empty_t2g objs cx cy s nm coll) (\<lambda>r. Inr (snd r)))"
proof -
  have a: "c = vec_div (vec_add mn mx) 2
        \<and> (\<forall>f\<in>set objs. \<forall>w\<in>set (world_corners f).
              vx mn \<le> vx w \<and> vy mn \<le> vy w \<and> vz mn \<le> vz w
              \<and> vx w \<le> vx mx \<and> vy w \<le> vy mx \<and> vz w \<le> vz mx)
        \<and> vx mn \<in> vx ` (\<Union>f\<in>set objs. set (world_corners f))
        \<and> vy mn \<in> vy ` (\<Union>f\<in>set objs. set (world_corners f))
        \<and> vz mn \<in> vz ` (\<Union>f\<in>set objs. set (world_corners f))
        \<and> vx mx \<in> vx ` (\<Union>f\<in>set objs. set (world_corners f))
        \<and> vy mx \<in> vy ` (\<Union>f\<in>set objs. set (world_corners f))
        \<and> vz mx \<in> vz ` (\<Union>f\<in>set objs. set (world_corners f))"
    if h: "compute_world_bbox objs = Inr (Some (mn, mx, c))"
  proof -
    have 1: "c = vec_div (vec_add mn mx) 2" using bbox_components [OF h] by blast
    have 2: "\<forall>f\<in>set objs. \<forall>w\<in>set (world_corners f).
              vx mn \<le> vx w \<and> vy mn \<le> vy w \<and> vz mn \<le> vz w
              \<and> vx w \<le> vx mx \<and> vy w \<le> vy mx \<and> vz w \<le> vz mx"
      using bbox_bounds [OF h] unfolding set_coords_of by blast
    show ?thesis using 1 2 bbox_attained [OF h] unfolding set_coords_of by blast
  qed
  have b: "all_coords_of objs = Inr (concat (map world_corners objs))
        \<and> align_group_with_empty objs cx cy s nm coll
            = ebind (align_group_with_empty_t2g objs cx cy s nm coll) (\<lambda>r. Inr (snd r))"
    if h: "\<forall>f\<in>set objs. bound_box f \<noteq> None"
    using all_coords_of_coords_of [OF h] align_agree [OF h] by (simp add: coords_of_concat)
  show ?thesis using a b compute_world_bbox_spec [of objs] by blast
qed

theorem union_bbox_computation_witness:
  "compute_world_bbox example_group = Inr (Some (Vector 10 10 2, Vector 20 14 6, Vector 15 12 4))
   \<and> None \<notin> bound_box ` set example_group
   \<and> union_bbox_spec example_group = Some (Vector 10 10 2, Vector 20 14 6)
   \<and> Vector 15 12 4 = vec_div (vec_add (Vector 10 10 2) (Vector 20 14 6)) 2
   \<and> list_all (\<lambda>w. 10 \<le> vx w \<and> 10 \<le> vy w \<and> 2 \<le> vz w \<and> vx w \<le> 20 \<and> vy w \<le> 14 \<and> vz w \<le> 6)
         (concat (map world_corners example_group))
   \<and> all_coords_of example_group = Inr (concat (map world_corners example_group))"
proof -
  note t = union_bbox_computation [of example_group "Vector 10 10 2" "Vector 20 14 6"
      "Vector 15 12 4" 1 0 50 "''Fan''" "[]"]
  have "Some (Vector 10 10 2, Vector 20 14 6, Vector 15 12 4)
          = (case union_bbox_spec example_group of
               None \<Rightarrow> None
             | Some (lo, hi) \<Rightarrow> Some (lo, hi, vec_div (vec_add lo hi) 2))"
    using t example_group_bbox by (simp add: vec_div_def vec_add_def)
  then have u: "union_bbox_spec example_group = Some (Vector 10 10 2, Vector 20 14 6)"
    by (cases "union_bbox_spec example_group") auto
  show ?thesis
    using t u example_group_bbox example_group_boxes example_group_boxes_image
    by (simp add: vec_div_def vec_add_def list_all_iff)
qed

section \<open>The origin-shift session\<close>

lemma objects_get_Some:
  "objects_get obs nm = Some i \<Longrightarrow> i < length obs \<and> obj_name (obs ! i) = nm"
proof (induction obs arbitrary: i)
  case Nil
  then show ?case by simp
next
  case (Cons ob obs)
  then show ?case by (auto split: if_splits)
qed

lemma objects_get_None:
  "objects_get obs nm = None \<longleftrightarrow> nm \<notin> obj_name ` set obs"
  by (induction obs) auto

lemma objects_get_names:
  "map obj_name xs = map obj_name ys \<Longrightarrow> objects_get xs nm = objects_get ys nm"
proof (induction xs arbitrary: ys)
  case Nil
  then show ?case by simp
next
  case (Cons x xs)
  then obtain y ys' where "ys = y # ys'" by (cases ys) auto
  then show ?case using Cons by auto
qed

lemma objects_get_distinct:
  assumes "distinct (map obj_name obs)" and "i < length obs"
  shows "objects_get obs (obj_name (obs ! i)) = Some i"
  using assms
proof (induction obs arbitrary: i)
  case Nil
  then show ?case by simp
next
  case (Cons ob obs)
  show ?case
  proof (cases i)
    case 0
    then show ?thesis by simp
  next
    case (Suc j)
    then have "obj_name (obs ! j) \<in> obj_name ` set obs" using Cons.prems by auto
    then have "obj_name ob \<noteq> obj_name (obs ! j)" using Cons.prems by auto
    then show ?thesis using Suc Cons by auto
  qed
qed

lemma restore_position_fold:
  assumes "distinct (map obj_name xs)" and "distinct (map fst es)"
  shows "map obj_name (fst (foldl restore_position (xs, k) es)) = map obj_name xs
       \<and> (\<forall>i<length xs. fst (foldl restore_position (xs, k) es) ! i
              = (case map_of es (obj_name (xs ! i)) of
                   None \<Rightarrow> xs ! i
                 | Some loc \<Rightarrow> (xs ! i)\<lparr>obj_location := loc\<rparr>))"
  using assms
proof (induction es arbitrary: xs k)
  case Nil
  then show ?case by simp
next
  case (Cons e es)
  obtain nm loc where e: "e = (nm, loc)" by (cases e) auto
  have des: "distinct (map fst es)" and fresh: "nm \<notin> fst ` set es"
    using Cons.prems(2) e by auto
  then have none: "map_of es nm = None" by (simp add: map_of_eq_None_iff)
  show ?case
  proof (cases "objects_get xs nm")
    case None
    then have step: "restore_position (xs, k) e = (xs, k)"
      by (simp add: restore_position_def e)
    have "\<forall>i<length xs. obj_name (xs ! i) \<noteq> nm"
      using None objects_get_None [of xs nm] by auto
    then show ?thesis
      using Cons.IH [OF Cons.prems(1) des, of k] step e by simp
  next
    case (Some j)
    then have j: "j < length xs" "obj_name (xs ! j) = nm" using objects_get_Some by blast+
    define xs' where "xs' = xs[j := (xs ! j)\<lparr>obj_location := loc\<rparr>]"
    have step: "restore_position (xs, k) e = (xs', Suc k)"
      by (simp add: restore_position_def e Some xs'_def)
    have names: "map obj_name xs' = map obj_name xs"
      using j by (simp add: xs'_def map_update list_update_same_conv)
    then have d': "distinct (map obj_name xs')" using Cons.prems(1) by simp
    have len: "length xs' = length xs" by (simp add: xs'_def)
    note ih = Cons.IH [OF d' des, of "Suc k"]
    have uniq: "i = j" if "i < length xs" "obj_name (xs ! i) = nm" for i
      using that j Cons.prems(1) objects_get_distinct [of xs i] Some by simp
    have "fst (foldl restore_position (xs', Suc k) es) ! i
            = (case map_of (e # es) (obj_name (xs ! i)) of
                 None \<Rightarrow> xs ! i
               | Some loc \<Rightarrow> (xs ! i)\<lparr>obj_location := loc\<rparr>)" if i: "i < length xs" for i
    proof (cases "i = j")
      case True
      have "obj_name (xs' ! j) = nm" using j by (simp add: xs'_def)
      then show ?thesis using ih i len True none j by (simp add: e xs'_def)
    next
      case False
      then have "obj_name (xs ! i) \<noteq> nm" using uniq i by blast
      moreover have "xs' ! i = xs ! i" using False by (simp add: xs'_def)
      ultimately show ?thesis using ih i len by (auto simp: e split: option.splits)
    qed
    then show ?thesis using ih names step by simp
  qed
qed

lemma map_of_positions:
  assumes "distinct (map obj_name obs)" and "i < length obs"
  shows "map_of (map (\<lambda>ob. (obj_name ob, obj_location ob)) (filter P obs)) (obj_name (obs ! i))
           = (if P (obs ! i) then Some (obj_location (obs ! i)) else None)"
proof (cases "P (obs ! i)")
  case True
  have d: "distinct (map fst (map (\<lambda>ob. (obj_name ob, obj_location ob)) (filter P obs)))"
    using assms(1) by (simp add: comp_def distinct_map_filter)
  have "(obj_name (obs ! i), obj_location (obs ! i))
          \<in> set (map (\<lambda>ob. (obj_name ob, obj_location ob)) (filter P obs))"
    using True assms(2) by auto
  then show ?thesis using True map_of_is_SomeI [OF d] by simp
next
  case False
  have "obj_name (obs ! i) \<notin> fst ` set (map (\<lambda>ob. (obj_name ob, obj_location ob)) (filter P obs))"
  proof
    assume "obj_name (obs ! i) \<in> fst ` set (map (\<lambda>ob. (obj_name ob, obj_location ob)) (filter P obs))"
    then obtain ob where ob: "ob \<in> set obs" "P ob" "obj_name ob = obj_name (obs ! i)" by auto
    then obtain j where j: "j < length obs" "obs ! j = ob" by (auto simp: in_set_conv_nth)
    have "obj_name (obs ! j) = obj_name (obs ! i)" using j ob(3) by simp
    then have "j = i"
      using assms j(1) nth_eq_iff_index_eq [of "map obj_name obs" j i] by simp
    then show False using False ob(2) j by simp
  qed
  then show ?thesis using False by (simp add: map_of_eq_None_iff)
qed

lemma move_finished:
  assumes "move_reference_to_origin s = Inr (FINISHED, reports, s')"
  shows "\<exists>nm ref m verts.
           selected_reference_name s = Some nm
         \<and> objects_get (objects s) nm = Some ref
         \<and> obj_data (objects s ! ref) = Some m
         \<and> mesh_verts (meshes s) m = Some verts
         \<and> s' = s\<lparr>objects :=
                      move_others ref
                        (vec_neg (mat_mul_vec (obj_matrix_world (objects s ! ref))
                                    (geometry_center verts)))
                        ((objects s)[ref := (objects s ! ref)\<lparr>obj_location := Vector 0 0 0\<rparr>]),
                    meshes :=
                      (meshes s @ [Some verts])
                        [m := Some (map (\<lambda>v. vec_sub v (geometry_center verts)) verts)],
                    original_positions_store :=
                      map (\<lambda>ob. (obj_name ob, obj_location ob)) (scene_meshes (objects s)),
                    original_geometry_store :=
                      [(obj_name (objects s ! ref), length (meshes s))],
                    scene_offset_vector :=
                      vec_neg (mat_mul_vec (obj_matrix_world (objects s ! ref))
                                 (geometry_center verts))\<rparr>"
  using assms
  by (auto simp: move_reference_to_origin_def Let_def split: option.splits if_splits)

lemma length_move_others: "length (move_others ref off obs) = length obs"
  by (simp add: move_others_def)

lemma nth_move_others:
  "i < length obs \<Longrightarrow>
   move_others ref off obs ! i
     = (if in_scene (obs ! i) \<and> obj_type (obs ! i) = MESH \<and> i \<noteq> ref
        then (obs ! i)\<lparr>obj_location := vec_add (obj_location (obs ! i)) off\<rparr> else obs ! i)"
  by (simp add: move_others_def Let_def)

lemma vx_foldl_vec_add: "vx (foldl vec_add a vs) = vx a + sum_list (map vx vs)"
  by (induction vs arbitrary: a) (simp_all add: vec_add_def)

lemma vy_foldl_vec_add: "vy (foldl vec_add a vs) = vy a + sum_list (map vy vs)"
  by (induction vs arbitrary: a) (simp_all add: vec_add_def)

lemma vz_foldl_vec_add: "vz (foldl vec_add a vs) = vz a + sum_list (map vz vs)"
  by (induction vs arbitrary: a) (simp_all add: vec_add_def)

lemma sum_list_row_dot:
  "sum_list (map (\<lambda>v. row_dot (a, b, c, d) v) vs)
     = a * sum_list (map vx vs) + b * sum_list (map vy vs) + c * sum_list (map vz vs)
       + of_nat (length vs) * d"
  by (induction vs) (simp_all add: algebra_simps)

lemma row_dot_mean:
  assumes "vs \<noteq> []"
  shows "row_dot r (geometry_center vs)
           = sum_list (map (\<lambda>v. row_dot r v) vs) / of_nat (length vs)"
proof -
  obtain a b c d where r: "r = (a, b, c, d)" by (cases r) auto
  have n: "(of_nat (length vs) :: real) \<noteq> 0" using assms by simp
  show ?thesis
    unfolding r sum_list_row_dot
    using assms n
    by (simp add: geometry_center_def vec_div_def vx_foldl_vec_add vy_foldl_vec_add
        vz_foldl_vec_add add_divide_distrib)
qed

lemma mat_mul_vec_mean:
  assumes "vs \<noteq> []"
  shows "mat_mul_vec m (geometry_center vs) = geometry_center (map (mat_mul_vec m) vs)"
proof -
  have "vx (geometry_center (map (mat_mul_vec m) vs))
          = sum_list (map (\<lambda>v. row_dot (row0 m) v) vs) / of_nat (length vs)"
       "vy (geometry_center (map (mat_mul_vec m) vs))
          = sum_list (map (\<lambda>v. row_dot (row1 m) v) vs) / of_nat (length vs)"
       "vz (geometry_center (map (mat_mul_vec m) vs))
          = sum_list (map (\<lambda>v. row_dot (row2 m) v) vs) / of_nat (length vs)"
    using assms
    by (simp_all add: geometry_center_def vec_div_def vx_foldl_vec_add vy_foldl_vec_add
        vz_foldl_vec_add mat_mul_vec_def comp_def)
  then show ?thesis
    using row_dot_mean [OF assms]
    by (cases "geometry_center (map (mat_mul_vec m) vs)") (simp add: mat_mul_vec_def)
qed

lemma upt_3: "[0..<3] = [0, 1, 2]"
  by (simp add: upt_rec)

lemma example_scene_moved:
  "move_reference_to_origin example_scene
     = Inr (FINISHED, [(INFO, Centered ''Tower'' 2)], example_moved)"
  by (simp add: move_reference_to_origin_def example_scene_def example_moved_def Let_def
      mesh_verts_def geometry_center_def scene_meshes_def move_others_def upt_3
      translation_matrix_def mat_mul_vec_def vec_add_def vec_div_def vec_neg_def vec_sub_def)

lemma upt_2: "[0..<2] = [0, 1]"
  by (simp add: upt_rec)

lemma shared_scene_moved:
  "move_reference_to_origin shared_scene
     = Inr (FINISHED, [(INFO, Centered ''Tower'' 2)], shared_moved)"
  by (simp add: move_reference_to_origin_def shared_scene_def shared_moved_def Let_def
      mesh_verts_def geometry_center_def scene_meshes_def move_others_def upt_2
      translation_matrix_def mat_mul_vec_def vec_add_def vec_div_def vec_neg_def vec_sub_def)

lemma names_move_others: "map obj_name (move_others ref off obs) = map obj_name obs"
  by (rule nth_equalityI) (simp_all add: length_move_others nth_move_others)

lemma nth_update_at:
  "j < length obs \<Longrightarrow> obs[r := x] ! j = (if j = r then x else obs ! j)"
  by (cases "j = r") simp_all

lemma names_list_update_location:
  "map obj_name (obs[r := (obs ! r)\<lparr>obj_location := l\<rparr>]) = map obj_name obs"
  by (rule nth_equalityI) (simp_all add: nth_update_at)

lemma move_restore_roundtrip:
  assumes names: "distinct (map obj_name (objects s))"
    and mv: "move_reference_to_origin s = Inr (FINISHED, reports, s1)"
    and i: "i < length (objects s)" "in_scene (objects s ! i)" "obj_type (objects s ! i) = MESH"
    and unshared: "\<forall>nm ref. selected_reference_name s = Some nm
                     \<and> objects_get (objects s) nm = Some ref \<longrightarrow>
                     (\<forall>j<length (objects s). j \<noteq> ref \<longrightarrow>
                        obj_data (objects s ! j) \<noteq> obj_data (objects s ! ref))"
  shows "\<exists>k s2 nm ref m.
           restore_original_position s1 = (FINISHED, [(INFO, Restored k)], s2)
         \<and> length (objects s2) = length (objects s)
         \<and> obj_location (objects s2 ! i) = obj_location (objects s ! i)
         \<and> selected_reference_name s = Some nm
         \<and> objects_get (objects s) nm = Some ref
         \<and> obj_data (objects s ! ref) = Some m
         \<and> obj_data (objects s2 ! ref) = Some (length (meshes s))
         \<and> mesh_verts (meshes s2) (length (meshes s)) = mesh_verts (meshes s) m
         \<and> original_positions_store s2 = []
         \<and> original_geometry_store s2 = []
         \<and> scene_offset_vector s2 = Vector 0 0 0"
proof -
  define obs where "obs = objects s"
  define P :: "bobject \<Rightarrow> bool" where "P = (\<lambda>ob. in_scene ob \<and> obj_type ob = MESH)"
  obtain nm ref m verts where
    sel: "selected_reference_name s = Some nm"
    and get: "objects_get obs nm = Some ref"
    and dat: "obj_data (obs ! ref) = Some m"
    and ver: "mesh_verts (meshes s) m = Some verts"
    and s1: "s1 = s\<lparr>objects :=
                      move_others ref
                        (vec_neg (mat_mul_vec (obj_matrix_world (obs ! ref))
                                    (geometry_center verts)))
                        (obs[ref := (obs ! ref)\<lparr>obj_location := Vector 0 0 0\<rparr>]),
                    meshes :=
                      (meshes s @ [Some verts])
                        [m := Some (map (\<lambda>v. vec_sub v (geometry_center verts)) verts)],
                    original_positions_store :=
                      map (\<lambda>ob. (obj_name ob, obj_location ob)) (scene_meshes obs),
                    original_geometry_store :=
                      [(obj_name (obs ! ref), length (meshes s))],
                    scene_offset_vector :=
                      vec_neg (mat_mul_vec (obj_matrix_world (obs ! ref))
                                 (geometry_center verts))\<rparr>"
    using move_finished [OF mv] unfolding obs_def by blast
  define off where
    "off = vec_neg (mat_mul_vec (obj_matrix_world (obs ! ref)) (geometry_center verts))"
  define obs1 where "obs1 = obs[ref := (obs ! ref)\<lparr>obj_location := Vector 0 0 0\<rparr>]"
  define obs2 where "obs2 = move_others ref off obs1"
  define es where "es = map (\<lambda>ob. (obj_name ob, obj_location ob)) (filter P obs)"
  define R where "R = fst (foldl restore_position (obs2, 0) es)"
  define k where "k = snd (foldl restore_position (obs2, 0) es)"
  have ref: "ref < length obs" and refn: "obj_name (obs ! ref) = nm"
    using objects_get_Some [OF get] by simp_all
  have m: "m < length (meshes s)"
    using ver by (simp add: mesh_verts_def split: if_splits)
  have n1: "map obj_name obs1 = map obj_name obs"
    unfolding obs1_def by (rule names_list_update_location)
  have n2: "map obj_name obs2 = map obj_name obs"
    unfolding obs2_def using n1 by (simp add: names_move_others)
  have l2: "length obs2 = length obs"
    by (simp add: obs2_def obs1_def length_move_others)
  have nth2: "obj_name (obs2 ! j) = obj_name (obs ! j)" if "j < length obs" for j
    using that n2 l2 nth_map [of j obs2 obj_name] nth_map [of j obs obj_name] by simp
  have d2: "distinct (map obj_name obs2)" using names n2 by (simp add: obs_def)
  have des: "distinct (map fst es)"
    using names by (simp add: es_def comp_def distinct_map_filter obs_def)
  have data2: "obj_data (obs2 ! j) = obj_data (obs ! j)" if j: "j < length obs" for j
  proof -
    have 1: "obj_data (obs1 ! j) = obj_data (obs ! j)"
      using j by (cases "j = ref") (simp_all add: obs1_def)
    have "j < length obs1" using j by (simp add: obs1_def)
    then have "obj_data (obs2 ! j) = obj_data (obs1 ! j)"
      unfolding obs2_def by (simp add: nth_move_others)
    then show ?thesis using 1 by simp
  qed
  have fold: "map obj_name R = map obj_name obs2"
    "\<forall>j<length obs2. R ! j = (case map_of es (obj_name (obs2 ! j)) of
                                None \<Rightarrow> obs2 ! j
                              | Some loc \<Rightarrow> (obs2 ! j)\<lparr>obj_location := loc\<rparr>)"
    using restore_position_fold [OF d2 des, of 0] unfolding R_def by simp_all
  have lR: "length R = length obs" using map_eq_imp_length_eq [OF fold(1)] l2 by simp
  have mo: "map_of es (obj_name (obs2 ! j))
              = (if P (obs ! j) then Some (obj_location (obs ! j)) else None)"
    if "j < length obs" for j
    using map_of_positions [of obs j P] names that nth2 [OF that]
    by (simp add: es_def obs_def)
  have Rloc: "obj_location (R ! i) = obj_location (obs ! i)"
    using fold(2) i mo [of i] l2 by (simp add: P_def obs_def)
  have Rdata: "obj_data (R ! j) = obj_data (obs ! j)" if "j < length obs" for j
    using fold(2) that mo [OF that] l2 data2 [OF that] by simp
  have getR: "objects_get R nm = Some ref"
    using objects_get_names [of R obs nm] fold(1) n2 get by simp
  have ne: "es \<noteq> []"
  proof -
    have "obs ! i \<in> set (filter P obs)" using i by (simp add: P_def obs_def)
    then have "filter P obs \<noteq> []" by (metis empty_iff empty_set)
    then show ?thesis by (simp add: es_def)
  qed
  define R' where "R' = R[ref := (R ! ref)\<lparr>obj_data := Some (length (meshes s))\<rparr>]"
  have keep: "filter (\<lambda>ob. obj_data ob \<noteq> Some m) R' = R'"
  proof -
    have "obj_data (R' ! j) \<noteq> Some m" if j: "j < length R'" for j
    proof (cases "j = ref")
      case True
      then show ?thesis using m ref lR by (simp add: R'_def)
    next
      case False
      have "j < length obs" using j lR by (simp add: R'_def)
      then show ?thesis
        using False unshared sel get dat Rdata [of j] by (simp add: R'_def obs_def)
    qed
    then have "\<forall>ob\<in>set R'. obj_data ob \<noteq> Some m" by (auto simp: in_set_conv_nth)
    then show ?thesis by simp
  qed
  have pos: "original_positions_store s1 = es"
    by (simp add: s1 es_def scene_meshes_def P_def)
  have obj1: "objects s1 = obs2" by (simp add: s1 obs2_def obs1_def off_def)
  have geo: "original_geometry_store s1 = [(nm, length (meshes s))]"
    by (simp add: s1 refn)
  have rg: "restore_geometry (s1\<lparr>objects := R\<rparr>) (nm, length (meshes s))
              = (s1\<lparr>objects := R', meshes := (meshes s1)[m := None]\<rparr>)"
    using getR Rdata [OF ref] dat keep
    by (simp add: restore_geometry_def meshes_remove_def R'_def)
  have res: "restore_original_position s1
               = (FINISHED, [(INFO, Restored k)],
                  s1\<lparr>objects := R', meshes := (meshes s1)[m := None],
                     original_positions_store := [], original_geometry_store := [],
                     scene_offset_vector := Vector 0 0 0\<rparr>)"
    using ne rg
    by (simp add: restore_original_position_def pos obj1 geo Let_def R_def k_def)
  have mesh: "mesh_verts ((meshes s1)[m := None]) (length (meshes s)) = mesh_verts (meshes s) m"
    using m ver by (simp add: s1 mesh_verts_def nth_append)
  have loc': "obj_location (R' ! i) = obj_location (obs ! i)"
    using Rloc i lR by (cases "i = ref") (simp_all add: R'_def obs_def)
  have dat': "obj_data (R' ! ref) = Some (length (meshes s))"
    using ref lR by (simp add: R'_def)
  show ?thesis
    using res loc' dat' mesh lR sel get dat
    by (simp add: obs_def R'_def)
qed

text \<open>
  C9. A run of Move Reference to Origin that finishes has found the reference object
  and the vertices of its mesh; afterwards the reference is at \<open>(0, 0, 0)\<close>, the stored
  scene offset is the negated world-space geometry centre of the reference (its world
  matrix applied to the mean of its vertices, which is the mean of the transformed
  vertices), every other mesh object of the scene has this offset added to its location,
  and no other object changes.
\<close>

theorem move_reference_effect:
  assumes "move_reference_to_origin s = Inr (FINISHED, reports, s')"
  shows "\<exists>nm ref m verts.
           selected_reference_name s = Some nm
         \<and> objects_get (objects s) nm = Some ref
         \<and> ref < length (objects s)
         \<and> obj_data (objects s ! ref) = Some m
         \<and> mesh_verts (meshes s) m = Some verts
         \<and> length (objects s') = length (objects s)
         \<and> obj_location (objects s' ! ref) = Vector 0 0 0
         \<and> scene_offset_vector s'
             = vec_neg (mat_mul_vec (obj_matrix_world (objects s ! ref)) (geometry_center verts))
         \<and> (\<forall>i<length (objects s). i \<noteq> ref \<longrightarrow>
               objects s' ! i
                 = (if in_scene (objects s ! i) \<and> obj_type (objects s ! i) = MESH
                    then (objects s ! i)\<lparr>obj_location :=
                           vec_add (obj_location (objects s ! i)) (scene_offset_vector s')\<rparr>
                    else objects s ! i))
         \<and> (verts \<noteq> [] \<longrightarrow>
               geometry_center verts
                 = vec_div (foldl vec_add (Vector 0 0 0) verts) (of_nat (length verts))
               \<and> mat_mul_vec (obj_matrix_world (objects s ! ref)) (geometry_center verts)
                 = geometry_center (map (mat_mul_vec (obj_matrix_world (objects s ! ref))) verts))"
proof -
  obtain nm ref m verts where
    sel: "selected_reference_name s = Some nm"
    and get: "objects_get (objects s) nm = Some ref"
    and dat: "obj_data (objects s ! ref) = Some m"
    and ver: "mesh_verts (meshes s) m = Some verts"
    and s': "s' = s\<lparr>objects :=
                      move_others ref
                        (vec_neg (mat_mul_vec (obj_matrix_world (objects s ! ref))
                                    (geometry_center verts)))
                        ((objects s)[ref := (objects s ! ref)\<lparr>obj_location := Vector 0 0 0\<rparr>]),
                    meshes :=
                      (meshes s @ [Some verts])
                        [m := Some (map (\<lambda>v. vec_sub v (geometry_center verts)) verts)],
                    original_positions_store :=
                      map (\<lambda>ob. (obj_name ob, obj_location ob)) (scene_meshes (objects s)),
                    original_geometry_store :=
                      [(obj_name (objects s ! ref), length (meshes s))],
                    scene_offset_vector :=
                      vec_neg (mat_mul_vec (obj_matrix_world (objects s ! ref))
                                 (geometry_center verts))\<rparr>"
    using move_finished [OF assms] by blast
  have ref: "ref < length (objects s)" using objects_get_Some [OF get] by simp
  have len: "length (objects s') = length (objects s)"
    by (simp add: s' length_move_others)
  have loc: "obj_location (objects s' ! ref) = Vector 0 0 0"
    using ref by (simp add: s' nth_move_others)
  have off: "scene_offset_vector s'
             = vec_neg (mat_mul_vec (obj_matrix_world (objects s ! ref)) (geometry_center verts))"
    by (simp add: s')
  have others: "\<forall>i<length (objects s). i \<noteq> ref \<longrightarrow>
               objects s' ! i
                 = (if in_scene (objects s ! i) \<and> obj_type (objects s ! i) = MESH
                    then (objects s ! i)\<lparr>obj_location :=
                           vec_add (obj_location (objects s ! i)) (scene_offset_vector s')\<rparr>
                    else objects s ! i)"
    by (simp add: s' nth_move_others)
  have mean: "verts \<noteq> [] \<longrightarrow>
               geometry_center verts
                 = vec_div (foldl vec_add (Vector 0 0 0) verts) (of_nat (length verts))
               \<and> mat_mul_vec (obj_matrix_world (objects s ! ref)) (geometry_center verts)
                 = geometry_center (map (mat_mul_vec (obj_matrix_world (objects s ! ref))) verts)"
    using mat_mul_vec_mean by (simp add: geometry_center_def)
  show ?thesis
    using sel get ref dat ver len loc off others mean by blast
qed

theorem move_reference_effect_witness:
  "move_reference_to_origin example_scene
     = Inr (FINISHED, [(INFO, Centered ''Tower'' 2)], example_moved)
   \<and> obj_location (objects example_moved ! 0) = Vector 0 0 0
   \<and> scene_offset_vector example_moved = Vector (- 1001) (- 2002) (- 3)
   \<and> obj_location (objects example_moved ! 1)
       = vec_add (obj_location (objects example_scene ! 1)) (Vector (- 1001) (- 2002) (- 3))
   \<and> objects example_moved ! 2 = objects example_scene ! 2
   \<and> geometry_center [Vector 0 0 0, Vector 2 4 6] = Vector 1 2 3
   \<and> vec_neg (mat_mul_vec (translation_matrix (Vector 1000 2000 0)) (Vector 1 2 3))
       = Vector (- 1001) (- 2002) (- 3)"
  using move_reference_effect [OF example_scene_moved] example_scene_moved
  by (simp add: example_moved_def example_scene_def vec_add_def geometry_center_def
      vec_div_def vec_neg_def mat_mul_vec_def translation_matrix_def)

text \<open>
  C10. Without stored positions Restore Original Position and Register New Meshes each
  report one warning and return \<open>CANCELLED\<close>, and the state (objects, meshes, stored
  positions, stored geometry, scene offset) is the state they were given.
\<close>

theorem no_session_cancels:
  "original_positions_store s = [] \<longrightarrow>
     restore_original_position s = (CANCELLED, [(WARNING, NoStoredPositions)], s)
     \<and> register_new_meshes s = (CANCELLED, [(WARNING, NoActiveSession)], s)"
  by (simp add: restore_original_position_def register_new_meshes_def)

theorem no_session_cancels_witness:
  "original_positions_store example_scene = []
   \<and> restore_original_position example_scene
       = (CANCELLED, [(WARNING, NoStoredPositions)], example_scene)
   \<and> register_new_meshes example_scene
       = (CANCELLED, [(WARNING, NoActiveSession)], example_scene)"
  using no_session_cancels [of example_scene] by (simp add: example_scene_def)

text \<open>
  C8. Move Reference to Origin followed by Restore Original Position does not bring back
  every mesh object of the scene. In \<open>shared_scene\<close> the mesh object \<open>Tower.001\<close> uses the
  mesh datablock of the reference \<open>Tower\<close>: Restore puts both locations back, gives the
  reference the stored copy and removes the shifted datablock, and with the datablock
  the host removes \<open>Tower.001\<close>, which still uses it. (\<open>move_restore_roundtrip\<close> above is
  the round trip for a reference that shares its datablock with no other object.)
\<close>

theorem restore_deletes_shared_mesh_user:
  "map obj_name (scene_meshes (objects shared_scene)) = [''Tower'', ''Tower.001'']
   \<and> move_reference_to_origin shared_scene
       = Inr (FINISHED, [(INFO, Centered ''Tower'' 2)], shared_moved)
   \<and> restore_original_position shared_moved
       = (FINISHED, [(INFO, Restored 2)],
          \<lparr>objects =
             [\<lparr>obj_name = ''Tower'', obj_type = MESH, obj_location = Vector 1000 2000 0,
               obj_data = Some 1, obj_matrix_world = translation_matrix (Vector 1000 2000 0),
               in_scene = True\<rparr>],
           meshes = [None, Some [Vector 0 0 0, Vector 2 4 6]],
           original_positions_store = [],
           original_geometry_store = [],
           selected_reference_name = Some ''Tower'',
           scene_offset_vector = Vector 0 0 0\<rparr>)"
  by (simp add: shared_scene_moved)
     (simp add: restore_original_position_def shared_moved_def shared_scene_def Let_def
      restore_position_def restore_geometry_def meshes_remove_def scene_meshes_def)

end
